theory Spec2Isabelle
  imports Complex_Main "HOL-Library.Sublist"
begin

section \<open>JavaScript values as the State Cache sees them\<close>

text \<open>
  Payloads reach the SDK as decoded JSON, and the TypeScript interfaces (\<open>DeviceState\<close>,
  \<open>NcState\<close>, ...) are erased at run time: every function of \<open>state-manager.ts\<close> really
  works on arbitrary JavaScript values. They are modelled by one datatype. An object is
  the list of its own properties in enumeration order (keys distinct); numbers are
  integers (millisecond timestamps), the code only tests them for truthiness and prints
  them.
\<close>

datatype jsval =
    JUndefined
  | JNull
  | JBool bool
  | JNum int
  | JStr string
  | JArr "jsval list"
  | JObj "(string \<times> jsval) list"

text \<open>\<open>errors.ts\<close>: the error codes, and the exceptions that can travel through the code.\<close>

datatype ErrorCode =
    KRISP_NOT_REACHABLE
  | CONNECTION_REFUSED
  | CONNECTION_TIMEOUT
  | INVALID_MESSAGE
  | UNKNOWN_ERROR

datatype js_error =
    TypeError                         \<comment> \<open>property read on \<open>null\<close>/\<open>undefined\<close>, call of a non-function\<close>
  | Error string                      \<comment> \<open>\<open>new Error(message)\<close>\<close>
  | KrispSDKError ErrorCode string    \<comment> \<open>\<open>new KrispSDKError(code, message)\<close>\<close>

definition ebind :: "'e + 'a \<Rightarrow> ('a \<Rightarrow> 'e + 'b) \<Rightarrow> 'e + 'b" where
  "ebind m f = (case m of Inl e \<Rightarrow> Inl e | Inr v \<Rightarrow> f v)"

fun truthy :: "jsval \<Rightarrow> bool" where
  "truthy JUndefined = False"
| "truthy JNull = False"
| "truthy (JBool b) = b"
| "truthy (JNum n) = (n \<noteq> 0)"
| "truthy (JStr s) = (s \<noteq> [])"
| "truthy (JArr xs) = True"
| "truthy (JObj kvs) = True"

fun typeof :: "jsval \<Rightarrow> string" where
  "typeof JUndefined = ''undefined''"
| "typeof JNull = ''object''"
| "typeof (JBool b) = ''boolean''"
| "typeof (JNum n) = ''number''"
| "typeof (JStr s) = ''string''"
| "typeof (JArr xs) = ''object''"
| "typeof (JObj kvs) = ''object''"

text \<open>\<open>a || b\<close> and \<open>Boolean(a)\<close>.\<close>

definition js_or :: "jsval \<Rightarrow> jsval \<Rightarrow> jsval" where
  "js_or a b = (if truthy a then a else b)"

definition Boolean :: "jsval \<Rightarrow> jsval" where
  "Boolean a = JBool (truthy a)"

text \<open>Decimal printing of a number, as in a template string or in JSON text.\<close>

fun show_nat :: "nat \<Rightarrow> string" where
  "show_nat n =
     (if n < 10 then [''0123456789'' ! n]
      else show_nat (n div 10) @ [''0123456789'' ! (n mod 10)])"

declare show_nat.simps [simp del]

definition show_int :: "int \<Rightarrow> string" where
  "show_int i = (if i < 0 then CHR ''-'' # show_nat (nat (- i)) else show_nat (nat i))"

text \<open>
  \<open>v[k]\<close> and \<open>v.k\<close>. Reading a property of \<open>null\<close> or \<open>undefined\<close> throws a TypeError; a
  missing property is \<open>undefined\<close>. An array or a string answers its index keys; the code
  never reads \<open>length\<close> from a payload.
\<close>

definition index_key :: "nat \<Rightarrow> string \<Rightarrow> nat option" where
  "index_key len k = find (\<lambda>i. show_nat i = k) [0..<len]"

fun js_get :: "jsval \<Rightarrow> string \<Rightarrow> js_error + jsval" where
  "js_get JUndefined k = Inl TypeError"
| "js_get JNull k = Inl TypeError"
| "js_get (JBool b) k = Inr JUndefined"
| "js_get (JNum n) k = Inr JUndefined"
| "js_get (JStr s) k = Inr (case index_key (length s) k of None \<Rightarrow> JUndefined | Some i \<Rightarrow> JStr [s ! i])"
| "js_get (JArr xs) k = Inr (case index_key (length xs) k of None \<Rightarrow> JUndefined | Some i \<Rightarrow> xs ! i)"
| "js_get (JObj kvs) k = Inr (case map_of kvs k of None \<Rightarrow> JUndefined | Some v \<Rightarrow> v)"

text \<open>\<open>v?.k\<close>: \<open>undefined\<close> instead of the TypeError.\<close>

definition opt_get :: "jsval \<Rightarrow> string \<Rightarrow> jsval" where
  "opt_get v k = (case js_get v k of Inl e \<Rightarrow> JUndefined | Inr w \<Rightarrow> w)"

text \<open>
  \<open>a === b\<close>. Primitives are compared by value. Two objects are equal only when they are
  the same reference, which a cached snapshot and a freshly decoded payload never are.
\<close>

fun is_primitive :: "jsval \<Rightarrow> bool" where
  "is_primitive (JArr xs) = False"
| "is_primitive (JObj kvs) = False"
| "is_primitive v = True"

definition strict_equals :: "jsval \<Rightarrow> jsval \<Rightarrow> bool" where
  "strict_equals a b = (is_primitive a \<and> a = b)"

subsection \<open>\<open>JSON.stringify\<close>\<close>

definition hex_digit :: "nat \<Rightarrow> char" where
  "hex_digit n = ''0123456789abcdef'' ! n"

definition escape_char :: "char \<Rightarrow> string" where
  "escape_char c =
     (if c = CHR 0x22 then [CHR 0x5C, CHR 0x22]
      else if c = CHR 0x5C then [CHR 0x5C, CHR 0x5C]
      else if c = CHR 0x08 then [CHR 0x5C, CHR ''b'']
      else if c = CHR 0x0C then [CHR 0x5C, CHR ''f'']
      else if c = CHR 0x0A then [CHR 0x5C, CHR ''n'']
      else if c = CHR 0x0D then [CHR 0x5C, CHR ''r'']
      else if c = CHR 0x09 then [CHR 0x5C, CHR ''t'']
      else if of_char c < (32::nat)
        then [CHR 0x5C, CHR ''u'', CHR ''0'', CHR ''0'',
              hex_digit (of_char c div 16), hex_digit (of_char c mod 16)]
      else [c])"

definition quote :: "string \<Rightarrow> string" where
  "quote s = CHR 0x22 # concat (map escape_char s) @ [CHR 0x22]"

fun join :: "string \<Rightarrow> string list \<Rightarrow> string" where
  "join sep [] = []"
| "join sep [x] = x"
| "join sep (x # y # ys) = x @ sep @ join sep (y # ys)"

text \<open>
  \<open>JSON.stringify(v)\<close> is \<open>undefined\<close> (here \<open>None\<close>) for \<open>undefined\<close>; inside an array
  \<open>undefined\<close> prints as \<open>null\<close>, inside an object the property is left out.
\<close>

fun stringify :: "jsval \<Rightarrow> string option" where
  "stringify JUndefined = None"
| "stringify JNull = Some ''null''"
| "stringify (JBool b) = Some (if b then ''true'' else ''false'')"
| "stringify (JNum n) = Some (show_int n)"
| "stringify (JStr s) = Some (quote s)"
| "stringify (JArr xs) =
     Some (''['' @ join '','' (map (\<lambda>x. case stringify x of None \<Rightarrow> ''null'' | Some t \<Rightarrow> t) xs) @ '']'')"
| "stringify (JObj kvs) =
     Some (''{'' @ join '',''
        (concat (map (\<lambda>kv. case stringify (snd kv) of None \<Rightarrow> []
                            | Some t \<Rightarrow> [quote (fst kv) @ '':'' @ t]) kvs))
        @ ''}'')"

text \<open>\<open>String(v)\<close>, as the \<open>Error\<close> constructor and a template string apply it.\<close>

fun to_string :: "jsval \<Rightarrow> string" where
  "to_string JUndefined = ''undefined''"
| "to_string JNull = ''null''"
| "to_string (JBool b) = (if b then ''true'' else ''false'')"
| "to_string (JNum n) = show_int n"
| "to_string (JStr s) = s"
| "to_string (JArr xs) =
     join '','' (map (\<lambda>x. if x = JUndefined \<or> x = JNull then [] else to_string x) xs)"
| "to_string (JObj kvs) = ''[object Object]''"

text \<open>
  \<open>`${error}`\<close> for a caught exception: the error's name, a colon and its message. The
  message text of an engine's TypeError is not modelled.
\<close>

fun error_to_string :: "js_error \<Rightarrow> string" where
  "error_to_string TypeError = ''TypeError''"
| "error_to_string (Error m) = ''Error: '' @ m"
| "error_to_string (KrispSDKError c m) = ''KrispSDKError: '' @ m"

section \<open>State Cache (\<open>state-manager.ts\<close>)\<close>

datatype SDKEvent =
    DEVICES_CHANGED
  | NOISE_CANCELLATION_CHANGED
  | ACCENT_CONVERSION_CHANGED
  | IN_CALL_CHANGED
  | CONNECTION_CHANGED
  | ERROR

text \<open>The keys of \<open>ServerToClientMessages\<close>.\<close>

datatype server_event = device_state | nc_state | ac_state | in_call_state | error | pong

text \<open>The four cached snapshots; \<open>None\<close> is \<open>null\<close>.\<close>

record state_manager =
  deviceState :: "jsval option"
  ncState :: "jsval option"
  acState :: "jsval option"
  inCallState :: "jsval option"

definition new_state_manager :: state_manager where
  "new_state_manager = \<lparr>deviceState = None, ncState = None, acState = None, inCallState = None\<rparr>"

text \<open>
  One call of \<open>emitInternal(event, data)\<close>: every handler registered for \<open>event\<close> is run once
  on \<open>data\<close>, and what a handler throws is caught there. A function of the cache returns
  the calls it made, in order.
\<close>

type_synonym emission = "SDKEvent \<times> jsval"

definition hasInCallStateChanged :: "jsval \<Rightarrow> jsval \<Rightarrow> js_error + bool" where
  "hasInCallStateChanged oldState newState =
     ebind (js_get oldState ''inCall'') (\<lambda>a.
     ebind (js_get newState ''inCall'') (\<lambda>b.
     Inr (\<not> strict_equals a b)))"

definition hasDeviceStateChanged :: "jsval \<Rightarrow> jsval \<Rightarrow> js_error + bool" where
  "hasDeviceStateChanged oldState newState =
     ebind (js_get oldState ''0'') (\<lambda>o0.
     ebind (js_get newState ''0'') (\<lambda>n0.
     if stringify o0 \<noteq> stringify n0 then Inr True
     else
       ebind (js_get oldState ''1'') (\<lambda>o1.
       ebind (js_get newState ''1'') (\<lambda>n1.
       Inr (stringify o1 \<noteq> stringify n1)))))"

text \<open>\<open>hasNcStateChanged\<close> and \<open>hasAcStateChanged\<close> have the same body.\<close>

definition enabled_changed :: "jsval \<Rightarrow> jsval \<Rightarrow> js_error + bool" where
  "enabled_changed oldState newState =
     ebind (js_get oldState ''0'') (\<lambda>o0.
     ebind (js_get o0 ''enabled'') (\<lambda>a0.
     ebind (js_get newState ''0'') (\<lambda>n0.
     ebind (js_get n0 ''enabled'') (\<lambda>b0.
     if \<not> strict_equals a0 b0 then Inr True
     else
       ebind (js_get oldState ''1'') (\<lambda>o1.
       ebind (js_get o1 ''enabled'') (\<lambda>a1.
       ebind (js_get newState ''1'') (\<lambda>n1.
       ebind (js_get n1 ''enabled'') (\<lambda>b1.
       Inr (\<not> strict_equals a1 b1)))))))))"

definition hasNcStateChanged :: "jsval \<Rightarrow> jsval \<Rightarrow> js_error + bool" where
  "hasNcStateChanged = enabled_changed"

definition hasAcStateChanged :: "jsval \<Rightarrow> jsval \<Rightarrow> js_error + bool" where
  "hasAcStateChanged = enabled_changed"

text \<open>
  The normalizers read the clock (\<open>Date.now()\<close>) only where a timestamp is missing: \<open>t0\<close>
  is what the clock answers for the microphone entry, \<open>t1\<close> for the speaker entry.
\<close>

definition validateAndNormalizeDeviceState :: "jsval \<Rightarrow> int \<Rightarrow> int \<Rightarrow> js_error + jsval" where
  "validateAndNormalizeDeviceState state t0 t1 =
     (if \<not> truthy state \<or> typeof state \<noteq> ''object''
      then Inl (Error ''Invalid device state: must be an object'')
      else
        ebind (js_get state ''0'') (\<lambda>s0.
        ebind (js_get state ''1'') (\<lambda>s1.
        if typeof s0 \<noteq> ''object'' \<or> typeof s1 \<noteq> ''object''
        then Inl (Error ''Invalid device state: missing microphone or speaker state'')
        else
          ebind (js_get s0 ''physicalDeviceInfo'') (\<lambda>p0.
          ebind (js_get s0 ''updatedAt'') (\<lambda>u0.
          ebind (js_get s1 ''physicalDeviceInfo'') (\<lambda>p1.
          ebind (js_get s1 ''updatedAt'') (\<lambda>u1.
          Inr (JObj
            [(''0'', JObj [(''physicalDeviceInfo'', js_or p0 JNull),
                           (''updatedAt'', js_or u0 (JNum t0))]),
             (''1'', JObj [(''physicalDeviceInfo'', js_or p1 JNull),
                           (''updatedAt'', js_or u1 (JNum t1))])]))))))))"

text \<open>\<open>validateAndNormalizeNcState\<close> and \<open>validateAndNormalizeAcState\<close> differ in the message.\<close>

definition normalize_enabled :: "string \<Rightarrow> jsval \<Rightarrow> int \<Rightarrow> int \<Rightarrow> js_error + jsval" where
  "normalize_enabled msg state t0 t1 =
     (if \<not> truthy state \<or> typeof state \<noteq> ''object''
      then Inl (Error msg)
      else
        ebind (js_get state ''0'') (\<lambda>s0.
        ebind (js_get state ''1'') (\<lambda>s1.
        Inr (JObj
          [(''0'', JObj [(''enabled'', Boolean (opt_get s0 ''enabled'')),
                         (''updatedAt'', js_or (opt_get s0 ''updatedAt'') (JNum t0))]),
           (''1'', JObj [(''enabled'', Boolean (opt_get s1 ''enabled'')),
                         (''updatedAt'', js_or (opt_get s1 ''updatedAt'') (JNum t1))])]))))"

definition validateAndNormalizeNcState :: "jsval \<Rightarrow> int \<Rightarrow> int \<Rightarrow> js_error + jsval" where
  "validateAndNormalizeNcState = normalize_enabled ''Invalid NC state: must be an object''"

definition validateAndNormalizeAcState :: "jsval \<Rightarrow> int \<Rightarrow> int \<Rightarrow> js_error + jsval" where
  "validateAndNormalizeAcState = normalize_enabled ''Invalid AC state: must be an object''"

definition validateAndNormalizeInCallState :: "jsval \<Rightarrow> int \<Rightarrow> js_error + jsval" where
  "validateAndNormalizeInCallState state t0 =
     (if \<not> truthy state \<or> typeof state \<noteq> ''object''
      then Inl (Error ''Invalid in-call state: must be an object'')
      else
        ebind (js_get state ''inCall'') (\<lambda>c.
        ebind (js_get state ''updatedAt'') (\<lambda>u.
        Inr (JObj [(''inCall'', Boolean c), (''updatedAt'', js_or u (JNum t0))]))))"

text \<open>
  The four \<open>update...\<close> methods: compare the cached snapshot with the raw payload, then
  normalize and store, then notify. A throw in the first two steps leaves the cache as it
  was, since the assignment has not happened yet.
\<close>

definition has_changed :: "jsval option \<Rightarrow> (jsval \<Rightarrow> jsval \<Rightarrow> js_error + bool) \<Rightarrow> jsval \<Rightarrow> js_error + bool" where
  "has_changed cached cmp newState =
     (case cached of None \<Rightarrow> Inr True | Some oldState \<Rightarrow> cmp oldState newState)"

definition updateDeviceState ::
  "state_manager \<Rightarrow> jsval \<Rightarrow> int \<Rightarrow> int \<Rightarrow> js_error + state_manager \<times> emission list" where
  "updateDeviceState sm newState t0 t1 =
     ebind (has_changed (deviceState sm) hasDeviceStateChanged newState) (\<lambda>hasChanged.
     ebind (validateAndNormalizeDeviceState newState t0 t1) (\<lambda>s.
     Inr (sm\<lparr>deviceState := Some s\<rparr>, if hasChanged then [(DEVICES_CHANGED, s)] else [])))"

definition updateNcState ::
  "state_manager \<Rightarrow> jsval \<Rightarrow> int \<Rightarrow> int \<Rightarrow> js_error + state_manager \<times> emission list" where
  "updateNcState sm newState t0 t1 =
     ebind (has_changed (ncState sm) hasNcStateChanged newState) (\<lambda>hasChanged.
     ebind (validateAndNormalizeNcState newState t0 t1) (\<lambda>s.
     Inr (sm\<lparr>ncState := Some s\<rparr>, if hasChanged then [(NOISE_CANCELLATION_CHANGED, s)] else [])))"

definition updateAcState ::
  "state_manager \<Rightarrow> jsval \<Rightarrow> int \<Rightarrow> int \<Rightarrow> js_error + state_manager \<times> emission list" where
  "updateAcState sm newState t0 t1 =
     ebind (has_changed (acState sm) hasAcStateChanged newState) (\<lambda>hasChanged.
     ebind (validateAndNormalizeAcState newState t0 t1) (\<lambda>s.
     Inr (sm\<lparr>acState := Some s\<rparr>, if hasChanged then [(ACCENT_CONVERSION_CHANGED, s)] else [])))"

definition updateInCallState ::
  "state_manager \<Rightarrow> jsval \<Rightarrow> int \<Rightarrow> js_error + state_manager \<times> emission list" where
  "updateInCallState sm newState t0 =
     ebind (has_changed (inCallState sm) hasInCallStateChanged newState) (\<lambda>hasChanged.
     ebind (validateAndNormalizeInCallState newState t0) (\<lambda>s.
     Inr (sm\<lparr>inCallState := Some s\<rparr>, if hasChanged then [(IN_CALL_CHANGED, s)] else [])))"

fun handleMessage ::
  "state_manager \<Rightarrow> server_event \<Rightarrow> jsval \<Rightarrow> int \<Rightarrow> int \<Rightarrow> js_error + state_manager \<times> emission list" where
  "handleMessage sm device_state data t0 t1 = updateDeviceState sm data t0 t1"
| "handleMessage sm nc_state data t0 t1 = updateNcState sm data t0 t1"
| "handleMessage sm ac_state data t0 t1 = updateAcState sm data t0 t1"
| "handleMessage sm in_call_state data t0 t1 = updateInCallState sm data t0"
| "handleMessage sm error data t0 t1 = Inr (sm, [(ERROR, data)])"
| "handleMessage sm pong data t0 t1 = Inr (sm, [])"

subsection \<open>The four domains, side by side\<close>

text \<open>
  The specification speaks of "each of the four domains". These selectors name, for the inbound
  event of a domain, the cache field its \<open>update...\<close> method writes, the change event it
  emits and the normalizer it applies.
\<close>

definition domain_events :: "server_event list" where
  "domain_events = [device_state, nc_state, ac_state, in_call_state]"

fun cached :: "server_event \<Rightarrow> state_manager \<Rightarrow> jsval option" where
  "cached device_state sm = deviceState sm"
| "cached nc_state sm = ncState sm"
| "cached ac_state sm = acState sm"
| "cached in_call_state sm = inCallState sm"
| "cached error sm = None"
| "cached pong sm = None"

fun change_event :: "server_event \<Rightarrow> SDKEvent" where
  "change_event device_state = DEVICES_CHANGED"
| "change_event nc_state = NOISE_CANCELLATION_CHANGED"
| "change_event ac_state = ACCENT_CONVERSION_CHANGED"
| "change_event in_call_state = IN_CALL_CHANGED"
| "change_event error = ERROR"
| "change_event pong = ERROR"

fun normalize :: "server_event \<Rightarrow> jsval \<Rightarrow> int \<Rightarrow> int \<Rightarrow> js_error + jsval" where
  "normalize device_state p t0 t1 = validateAndNormalizeDeviceState p t0 t1"
| "normalize nc_state p t0 t1 = validateAndNormalizeNcState p t0 t1"
| "normalize ac_state p t0 t1 = validateAndNormalizeAcState p t0 t1"
| "normalize in_call_state p t0 t1 = validateAndNormalizeInCallState p t0"
| "normalize error p t0 t1 = Inr p"
| "normalize pong p t0 t1 = Inr p"

text \<open>\<open>!state || typeof state !== 'object'\<close> is false: the payload is an object or an array.\<close>

definition is_object :: "jsval \<Rightarrow> bool" where
  "is_object v = (truthy v \<and> typeof v = ''object'')"

text \<open>The object literals the normalizers build, by their fields.\<close>

definition device_snapshot :: "jsval \<Rightarrow> jsval \<Rightarrow> jsval \<Rightarrow> jsval \<Rightarrow> jsval" where
  "device_snapshot p0 u0 p1 u1 =
     JObj [(''0'', JObj [(''physicalDeviceInfo'', p0), (''updatedAt'', u0)]),
           (''1'', JObj [(''physicalDeviceInfo'', p1), (''updatedAt'', u1)])]"

definition enabled_snapshot :: "bool \<Rightarrow> jsval \<Rightarrow> bool \<Rightarrow> jsval \<Rightarrow> jsval" where
  "enabled_snapshot b0 u0 b1 u1 =
     JObj [(''0'', JObj [(''enabled'', JBool b0), (''updatedAt'', u0)]),
           (''1'', JObj [(''enabled'', JBool b1), (''updatedAt'', u1)])]"

definition in_call_snapshot :: "bool \<Rightarrow> jsval \<Rightarrow> jsval" where
  "in_call_snapshot b u = JObj [(''inCall'', JBool b), (''updatedAt'', u)]"

text \<open>
  Every snapshot the cache holds was built by a normalizer, so it is an object. The
  comparison functions read the cached snapshot's fields and rely on this.
\<close>

definition cache_wf :: "state_manager \<Rightarrow> bool" where
  "cache_wf sm =
     (\<forall>ev \<in> set domain_events. case cached ev sm of None \<Rightarrow> True | Some s \<Rightarrow> is_object s)"

section \<open>Facade (\<open>index.ts\<close>): what the constructor wires\<close>

fun code_string :: "ErrorCode \<Rightarrow> string" where
  "code_string KRISP_NOT_REACHABLE = ''KRISP_NOT_REACHABLE''"
| "code_string CONNECTION_REFUSED = ''CONNECTION_REFUSED''"
| "code_string CONNECTION_TIMEOUT = ''CONNECTION_TIMEOUT''"
| "code_string INVALID_MESSAGE = ''INVALID_MESSAGE''"
| "code_string UNKNOWN_ERROR = ''UNKNOWN_ERROR''"

text \<open>
  \<open>emitError(new KrispSDKError(code, message))\<close>: one call of \<open>emitToHandlers\<close> on the
  \<open>error\<close> event. As for the cache, a function of the Facade returns the calls of
  \<open>emitToHandlers\<close> it made; a throwing handler is caught inside that call.
\<close>

definition emitError :: "ErrorCode \<Rightarrow> string \<Rightarrow> emission list" where
  "emitError code message =
     [(ERROR, JObj [(''code'', JStr (code_string code)), (''message'', JStr message),
                    (''originalError'', JUndefined)])]"

text \<open>
  The handlers the constructor registers on the State Cache. The four change events are
  passed on as they are. A server \<open>error\<close> event becomes an \<open>UNKNOWN_ERROR\<close>; when its
  payload has no readable \<open>message\<close> the handler throws and \<open>emitInternal\<close> swallows it.
  Nothing is registered for \<open>connectionChanged\<close>.
\<close>

fun forward_emission :: "emission \<Rightarrow> emission list" where
  "forward_emission (ERROR, data) =
     (case js_get data ''message'' of
        Inl e \<Rightarrow> []
      | Inr m \<Rightarrow> emitError UNKNOWN_ERROR (to_string (js_or m (JStr ''Server error''))))"
| "forward_emission (CONNECTION_CHANGED, data) = []"
| "forward_emission (event, data) = [(event, data)]"

text \<open>
  The \<open>onMessage\<close> callback handed to the Connection Supervisor: \<open>handleMessage\<close> inside
  \<open>try\<close>, and \<open>emitError\<close> with \<open>INVALID_MESSAGE\<close> in the \<open>catch\<close>. It always returns.
\<close>

definition onMessage ::
  "state_manager \<Rightarrow> server_event \<Rightarrow> jsval \<Rightarrow> int \<Rightarrow> int \<Rightarrow> state_manager \<times> emission list" where
  "onMessage sm event data t0 t1 =
     (case handleMessage sm event data t0 t1 of
        Inr (sm', out) \<Rightarrow> (sm', concat (map forward_emission out))
      | Inl e \<Rightarrow> (sm, emitError INVALID_MESSAGE (''Failed to process message: '' @ error_to_string e)))"

section \<open>Connection Supervisor (\<open>connection-manager.ts\<close>)\<close>

text \<open>
  The supervisor with its own backoff scheduler (\<open>scheduleReconnect\<close>). The transport is
  an external collaborator: what a connection attempt to one port does is an input of the
  model, \<open>port_outcome\<close>.
\<close>

definition DEFAULT_PORTS :: "nat list" where
  "DEFAULT_PORTS = [50190, 50191, 50192]"

definition DEFAULT_CONNECTION_TIMEOUT :: int where
  "DEFAULT_CONNECTION_TIMEOUT = 5000"

definition DEFAULT_RECONNECT_DELAY :: rat where
  "DEFAULT_RECONNECT_DELAY = 1000"

definition MAX_RECONNECT_DELAY :: rat where
  "MAX_RECONNECT_DELAY = 30000"

definition RECONNECT_BACKOFF_MULTIPLIER :: rat where
  "RECONNECT_BACKOFF_MULTIPLIER = 3 / 2"

record ConnectionOptions =
  connectionTimeout :: "int option"
  autoReconnect :: "bool option"
  maxReconnectAttempts :: "int option"

text \<open>\<open>status_error\<close> is the \<open>error\<close> field: its code and its message.\<close>

record ConnectionStatus =
  connected :: bool
  connecting :: bool
  port :: "nat option"
  status_error :: "(ErrorCode \<times> string) option"

text \<open>
  The private fields. \<open>socket\<close> is \<open>None\<close> for \<open>null\<close> and \<open>Some c\<close> for a socket whose
  \<open>connected\<close> flag is \<open>c\<close>. A timer field holds the delay of a pending timer, and \<open>None\<close>
  when no timer is pending (never armed, cleared, or already fired).
\<close>

record ConnectionManager =
  socket :: "bool option"
  currentPort :: "nat option"
  isConnecting :: bool
  reconnectAttempts :: nat
  reconnectTimer :: "rat option"
  currentReconnectDelay :: rat
  connectionTimeoutTimer :: "int option"
  options :: ConnectionOptions

definition new_ConnectionManager :: "ConnectionOptions \<Rightarrow> ConnectionManager" where
  "new_ConnectionManager opts =
     \<lparr>socket = None, currentPort = None, isConnecting = False, reconnectAttempts = 0,
      reconnectTimer = None, currentReconnectDelay = DEFAULT_RECONNECT_DELAY,
      connectionTimeoutTimer = None, options = opts\<rparr>"

definition isConnected :: "ConnectionManager \<Rightarrow> bool" where
  "isConnected cm = (case socket cm of None \<Rightarrow> False | Some c \<Rightarrow> c)"

definition clearReconnectTimer :: "ConnectionManager \<Rightarrow> ConnectionManager" where
  "clearReconnectTimer cm = cm\<lparr>reconnectTimer := None\<rparr>"

definition clearConnectionTimeout :: "ConnectionManager \<Rightarrow> ConnectionManager" where
  "clearConnectionTimeout cm = cm\<lparr>connectionTimeoutTimer := None\<rparr>"

text \<open>
  What happens first after \<open>io(url)\<close>: the socket's \<open>connect\<close> event, its \<open>connect_error\<close>
  event with the transport's message, or the connection timeout; or \<open>io\<close> itself throws
  inside the promise's executor, which rejects the promise with that exception.
\<close>

datatype port_outcome = Opens | ConnectError string | TimesOut | IoThrows string

definition connect_timeout :: "ConnectionManager \<Rightarrow> int" where
  "connect_timeout cm =
     (case connectionTimeout (options cm) of
        None \<Rightarrow> DEFAULT_CONNECTION_TIMEOUT
      | Some t \<Rightarrow> if t = 0 then DEFAULT_CONNECTION_TIMEOUT else t)"

definition connectToPort ::
  "ConnectionManager \<Rightarrow> nat \<Rightarrow> port_outcome \<Rightarrow> ConnectionManager \<times> (js_error + unit)" where
  "connectToPort cm p outcome =
     (case outcome of
        IoThrows m \<Rightarrow> (cm, Inl (Error m))
      | Opens \<Rightarrow>
          (clearConnectionTimeout (cm\<lparr>socket := Some True, connectionTimeoutTimer := Some (connect_timeout cm)\<rparr>),
           Inr ())
      | ConnectError m \<Rightarrow>
          (clearConnectionTimeout (cm\<lparr>socket := Some False, connectionTimeoutTimer := Some (connect_timeout cm)\<rparr>),
           if sublist ''xhr poll error'' m \<or> sublist ''websocket error'' m
           then Inl (KrispSDKError CONNECTION_REFUSED (''Connection refused: '' @ m))
           else Inl (KrispSDKError UNKNOWN_ERROR (''Connection error: '' @ m)))
      | TimesOut \<Rightarrow>
          (cm\<lparr>socket := Some False, connectionTimeoutTimer := None\<rparr>,
           Inl (KrispSDKError CONNECTION_TIMEOUT
                  (''Connection timeout after '' @ show_int (connect_timeout cm) @ ''ms''))))"

text \<open>
  \<open>scheduleReconnect\<close> returns the supervisor and the status updates it pushed through
  \<open>onConnectionChange\<close>.
\<close>

definition scheduleReconnect :: "ConnectionManager \<Rightarrow> ConnectionManager \<times> ConnectionStatus list" where
  "scheduleReconnect cm0 =
     (let cm = clearReconnectTimer cm0 in
      case maxReconnectAttempts (options cm) of
        Some maxAttempts \<Rightarrow>
          if int (reconnectAttempts cm) \<ge> maxAttempts
          then (cm, [\<lparr>connected = False, connecting = False, port = None,
                      status_error = Some (CONNECTION_REFUSED,
                        ''Max reconnect attempts ('' @ show_int maxAttempts @ '') reached'')\<rparr>])
          else (cm\<lparr>reconnectAttempts := reconnectAttempts cm + 1,
                   reconnectTimer := Some (currentReconnectDelay cm),
                   currentReconnectDelay :=
                     min (currentReconnectDelay cm * RECONNECT_BACKOFF_MULTIPLIER) MAX_RECONNECT_DELAY\<rparr>, [])
      | None \<Rightarrow>
          (cm\<lparr>reconnectAttempts := reconnectAttempts cm + 1,
              reconnectTimer := Some (currentReconnectDelay cm),
              currentReconnectDelay :=
                min (currentReconnectDelay cm * RECONNECT_BACKOFF_MULTIPLIER) MAX_RECONNECT_DELAY\<rparr>, []))"

text \<open>
  The loop over the ports. \<open>Inl p\<close>: port \<open>p\<close> accepted; \<open>Inr lastError\<close>: every port failed.
  After a failure the socket, if one was created, is closed and dropped.
\<close>

fun try_ports ::
  "ConnectionManager \<Rightarrow> nat list \<Rightarrow> (nat \<Rightarrow> port_outcome) \<Rightarrow> js_error option
     \<Rightarrow> ConnectionManager \<times> (nat + js_error option)" where
  "try_ports cm [] env lastError = (cm, Inr lastError)"
| "try_ports cm (p # ps) env lastError =
     (case connectToPort (cm\<lparr>currentPort := Some p\<rparr>) p (env p) of
        (cm', Inr u) \<Rightarrow> (cm', Inl p)
      | (cm', Inl e) \<Rightarrow> try_ports (cm'\<lparr>socket := None\<rparr>) ps env (Some e))"

definition failure_status :: "ErrorCode \<Rightarrow> string \<Rightarrow> ConnectionStatus" where
  "failure_status code message =
     \<lparr>connected = False, connecting = False, port = None, status_error = Some (code, message)\<rparr>"

text \<open>
  The \<open>catch\<close> block of \<open>connect\<close>, entered with the exception thrown inside \<open>try\<close>.
\<close>

definition connect_catch ::
  "ConnectionManager \<Rightarrow> js_error \<Rightarrow> ConnectionManager \<times> ConnectionStatus list \<times> (js_error + unit)" where
  "connect_catch cm0 e =
     (let cm = cm0\<lparr>isConnecting := False\<rparr>;
          (code, message) = (case e of KrispSDKError c m \<Rightarrow> (c, m)
                             | _ \<Rightarrow> (UNKNOWN_ERROR, ''Connection failed: '' @ error_to_string e))
      in if autoReconnect (options cm) \<noteq> Some False
         then (let (cm', sts) = scheduleReconnect cm in (cm', failure_status code message # sts, Inr ()))
         else (cm, [failure_status code message], Inl (KrispSDKError code message)))"

text \<open>
  \<open>connect()\<close>: the supervisor afterwards, the status updates in order, and how the
  returned promise settles (\<open>Inr ()\<close> resolved, \<open>Inl e\<close> rejected with \<open>e\<close>).
\<close>

definition connect ::
  "ConnectionManager \<Rightarrow> (nat \<Rightarrow> port_outcome)
     \<Rightarrow> ConnectionManager \<times> ConnectionStatus list \<times> (js_error + unit)" where
  "connect cm0 env =
     (if isConnected cm0 then (cm0, [], Inr ())
      else if isConnecting cm0 then (cm0, [], Inr ())
      else
        let cm1 = cm0\<lparr>isConnecting := True\<rparr>;
            st1 = \<lparr>connected = False, connecting = True, port = None, status_error = None\<rparr>
        in case try_ports cm1 DEFAULT_PORTS env None of
          (cm2, Inl p) \<Rightarrow>
            (cm2\<lparr>isConnecting := False, reconnectAttempts := 0,
                 currentReconnectDelay := DEFAULT_RECONNECT_DELAY\<rparr>,
             [st1, \<lparr>connected = True, connecting = False, port = Some p, status_error = None\<rparr>],
             Inr ())
        | (cm2, Inr lastError) \<Rightarrow>
            let (code, message) =
                  (case lastError of
                     Some (KrispSDKError c m) \<Rightarrow> (c, m)
                   | _ \<Rightarrow> (KRISP_NOT_REACHABLE, ''Krisp Desktop is not reachable or API is disabled''));
                cm3 = cm2\<lparr>isConnecting := False\<rparr>
            in if autoReconnect (options cm3) \<noteq> Some False
               then (let (cm4, sts) = scheduleReconnect cm3
                     in (cm4, [st1, failure_status code message] @ sts, Inr ()))
               else (let (cm4, sts, r) = connect_catch cm3 (KrispSDKError code message)
                     in (cm4, [st1, failure_status code message] @ sts, r)))"

text \<open>
  The reconnect timer fires: \<open>this.connect().catch(() => {})\<close>. Nothing happens when no
  timer is pending.
\<close>

definition reconnect_timer_fires ::
  "ConnectionManager \<Rightarrow> (nat \<Rightarrow> port_outcome) \<Rightarrow> ConnectionManager \<times> ConnectionStatus list" where
  "reconnect_timer_fires cm env =
     (case reconnectTimer cm of
        None \<Rightarrow> (cm, [])
      | Some d \<Rightarrow> (let (cm', sts, r) = connect (cm\<lparr>reconnectTimer := None\<rparr>) env in (cm', sts)))"

definition disconnect :: "ConnectionManager \<Rightarrow> ConnectionManager \<times> ConnectionStatus list" where
  "disconnect cm =
     ((clearConnectionTimeout (clearReconnectTimer cm))
        \<lparr>socket := None, currentPort := None, isConnecting := False, reconnectAttempts := 0,
         currentReconnectDelay := DEFAULT_RECONNECT_DELAY\<rparr>,
      [\<lparr>connected = False, connecting = False, port = None, status_error = None\<rparr>])"

text \<open>
  The socket's \<open>disconnect\<close> event with its reason. The socket object stays in
  \<open>this.socket\<close>, no longer connected.
\<close>

definition on_socket_disconnect ::
  "ConnectionManager \<Rightarrow> string \<Rightarrow> ConnectionManager \<times> ConnectionStatus list" where
  "on_socket_disconnect cm0 reason =
     (let cm = clearConnectionTimeout (cm0\<lparr>socket := map_option (\<lambda>c. False) (socket cm0)\<rparr>) in
      if reason = ''io server disconnect''
      then (cm, [failure_status CONNECTION_REFUSED ''Server disconnected client''])
      else if reason = ''io client disconnect'' then (cm, [])
      else if autoReconnect (options cm) \<noteq> Some False
      then (let (cm', sts) = scheduleReconnect cm
            in (cm', failure_status CONNECTION_REFUSED (''Disconnected: '' @ reason) # sts))
      else (cm, [failure_status CONNECTION_REFUSED (''Disconnected: '' @ reason)]))"

text \<open>
  Consecutive failed cycles: the first \<open>connect()\<close>, then \<open>n\<close> firings of the reconnect
  timer, each running \<open>connect()\<close> again against the same environment.
\<close>

fun after_cycles :: "nat \<Rightarrow> ConnectionManager \<Rightarrow> (nat \<Rightarrow> port_outcome) \<Rightarrow> ConnectionManager" where
  "after_cycles 0 cm env = fst (connect cm env)"
| "after_cycles (Suc n) cm env = fst (reconnect_timer_fires (after_cycles n cm env) env)"

text \<open>
  The reconnect delays as the specification words them: 1000 ms first, then each one the
  previous times 1.5, capped at 30000 ms.
\<close>

fun spec_delay :: "nat \<Rightarrow> rat" where
  "spec_delay 0 = 1000"
| "spec_delay (Suc k) = min (spec_delay k * (3 / 2)) 30000"

subsection \<open>Vocabulary for a failed cycle\<close>

definition all_ports_fail :: "(nat \<Rightarrow> port_outcome) \<Rightarrow> bool" where
  "all_ports_fail env = list_all (\<lambda>p. env p \<noteq> Opens) DEFAULT_PORTS"

text \<open>The rejection of the attempt on the last port: \<open>lastError\<close> when the loop ends.\<close>

definition last_port_error :: "ConnectionManager \<Rightarrow> (nat \<Rightarrow> port_outcome) \<Rightarrow> js_error + unit" where
  "last_port_error cm env = snd (connectToPort cm (last DEFAULT_PORTS) (env (last DEFAULT_PORTS)))"

text \<open>
  "Service not reachable unless a more specific error was captured": an SDK error stands
  as it is, anything else becomes \<open>KRISP_NOT_REACHABLE\<close>.
\<close>

fun aggregate_failure :: "js_error \<Rightarrow> ErrorCode \<times> string" where
  "aggregate_failure (KrispSDKError c m) = (c, m)"
| "aggregate_failure e = (KRISP_NOT_REACHABLE, ''Krisp Desktop is not reachable or API is disabled'')"

definition limit_reached :: "ConnectionManager \<Rightarrow> bool" where
  "limit_reached cm =
     (case maxReconnectAttempts (options cm) of
        None \<Rightarrow> False
      | Some maxAttempts \<Rightarrow> maxAttempts \<le> int (reconnectAttempts cm))"

definition max_attempts_status :: "ConnectionManager \<Rightarrow> ConnectionStatus" where
  "max_attempts_status cm =
     failure_status CONNECTION_REFUSED
       (''Max reconnect attempts ('' @ show_int (the (maxReconnectAttempts (options cm))) @ '') reached'')"

text \<open>Two environments: every port refuses the connection; the last port accepts it.\<close>

definition refusing_env :: "nat \<Rightarrow> port_outcome" where
  "refusing_env p = ConnectError ''websocket error''"

definition third_port_env :: "nat \<Rightarrow> port_outcome" where
  "third_port_env p = (if p = 50192 then Opens else ConnectError ''websocket error'')"

text \<open>Two supervisors agree on everything the backoff scheduler reads.\<close>

definition same_schedule :: "ConnectionManager \<Rightarrow> ConnectionManager \<Rightarrow> bool" where
  "same_schedule a b \<longleftrightarrow>
     options a = options b \<and> reconnectAttempts a = reconnectAttempts b
     \<and> reconnectTimer a = reconnectTimer b \<and> currentReconnectDelay a = currentReconnectDelay b
     \<and> isConnecting a = isConnecting b"

text \<open>
  Two configurations: auto-reconnect switched off; auto-reconnect left at its default
  (on) with a limit on the reconnect attempts.
\<close>

definition manual_options :: ConnectionOptions where
  "manual_options = \<lparr>connectionTimeout = None, autoReconnect = Some False, maxReconnectAttempts = None\<rparr>"

definition limited_options :: "int \<Rightarrow> ConnectionOptions" where
  "limited_options m = \<lparr>connectionTimeout = None, autoReconnect = None, maxReconnectAttempts = Some m\<rparr>"

definition default_options :: ConnectionOptions where
  "default_options = \<lparr>connectionTimeout = None, autoReconnect = None, maxReconnectAttempts = None\<rparr>"

text \<open>A supervisor at rest in the middle of a backoff: three attempts made, 3375 ms next.\<close>

definition backed_off_manager :: ConnectionManager where
  "backed_off_manager =
     (new_ConnectionManager default_options)\<lparr>reconnectAttempts := 3, currentReconnectDelay := 3375\<rparr>"

text \<open>The attempt limit, if any, lies above \<open>k\<close>.\<close>

definition below_limit :: "ConnectionOptions \<Rightarrow> nat \<Rightarrow> bool" where
  "below_limit opts k = (case maxReconnectAttempts opts of None \<Rightarrow> True | Some m \<Rightarrow> int k < m)"

section \<open>Facade (\<open>index.ts\<close>): requests\<close>

text \<open>
  A promise settles once: \<open>resolve\<close> and \<open>reject\<close> on a settled promise do nothing.
\<close>

datatype promise = Pending | Resolved jsval | Rejected js_error

fun resolve :: "jsval \<Rightarrow> promise \<Rightarrow> promise" where
  "resolve v Pending = Resolved v"
| "resolve v p = p"

fun reject :: "js_error \<Rightarrow> promise \<Rightarrow> promise" where
  "reject e Pending = Rejected e"
| "reject e p = p"

text \<open>
  What one request keeps alive: the promise it returned, its timeout timer (the delay
  while the timer is pending), its one-shot listener on the socket event (\<open>listening\<close>:
  registered on the supervisor's socket), and the acknowledgement callback handed to
  \<open>emit\<close>, which the transport runs at most once (\<open>awaiting_ack\<close>).
\<close>

record pending_request =
  promise :: promise
  timeout :: "nat option"
  listening :: bool
  awaiting_ack :: bool

text \<open>A message handed to \<open>connectionManager.emit\<close>: event name and payload.\<close>

type_synonym request = "string \<times> jsval"

text \<open>
  The four get-state methods are one text with three names changed: the request event,
  the socket event listened on, and the failure message.
\<close>

fun get_request :: "server_event \<Rightarrow> string" where
  "get_request device_state = ''get_device_state''"
| "get_request nc_state = ''get_nc_state''"
| "get_request ac_state = ''get_ac_state''"
| "get_request in_call_state = ''get_in_call_state''"
| "get_request error = ''''"
| "get_request pong = ''''"

fun get_failure_message :: "server_event \<Rightarrow> string" where
  "get_failure_message device_state = ''Failed to get device state''"
| "get_failure_message nc_state = ''Failed to get NC state''"
| "get_failure_message ac_state = ''Failed to get AC state''"
| "get_failure_message in_call_state = ''Failed to get in-call state''"
| "get_failure_message error = ''''"
| "get_failure_message pong = ''''"

text \<open>
  The synchronous part of a get-state method, given what \<open>isConnected()\<close> answers: it
  throws when not connected; otherwise it arms the 5000 ms timer, registers the listener
  and emits the request.
\<close>

definition getState :: "server_event \<Rightarrow> bool \<Rightarrow> js_error + pending_request \<times> request" where
  "getState ev is_connected =
     (if \<not> is_connected then Inl (KrispSDKError CONNECTION_REFUSED ''Not connected to server'')
      else Inr (\<lparr>promise = Pending, timeout = Some 5000, listening = True, awaiting_ack = True\<rparr>,
                (get_request ev, JObj [])))"

definition getDevicesState :: "bool \<Rightarrow> js_error + pending_request \<times> request" where
  "getDevicesState = getState device_state"

definition getNoiseCancellationState :: "bool \<Rightarrow> js_error + pending_request \<times> request" where
  "getNoiseCancellationState = getState nc_state"

definition getAccentConversionState :: "bool \<Rightarrow> js_error + pending_request \<times> request" where
  "getAccentConversionState = getState ac_state"

definition getInCallState :: "bool \<Rightarrow> js_error + pending_request \<times> request" where
  "getInCallState = getState in_call_state"

text \<open>
  \<open>cleanup\<close>: \<open>clearTimeout\<close> and \<open>connectionManager.off\<close>. The supervisor's \<open>off\<close> acts on
  its current socket; a socket it has dropped took its listeners with it.
\<close>

definition cleanup :: "pending_request \<Rightarrow> pending_request" where
  "cleanup r = r\<lparr>timeout := None, listening := False\<rparr>"

text \<open>The timer's callback runs only while the timer is pending.\<close>

definition on_timeout :: "pending_request \<Rightarrow> pending_request" where
  "on_timeout r =
     (if timeout r = None then r
      else (cleanup r)\<lparr>promise := reject (KrispSDKError CONNECTION_TIMEOUT ''Request timeout'') (promise r)\<rparr>)"

text \<open>\<open>handler\<close>: called with the payload of the socket event while it is registered.\<close>

definition handler :: "pending_request \<Rightarrow> jsval \<Rightarrow> pending_request" where
  "handler r state =
     (if \<not> listening r then r else (cleanup r)\<lparr>promise := resolve state (promise r)\<rparr>)"

text \<open>
  The acknowledgement callback. After a failed acknowledgement the code does not return:
  it goes on to look at the cache, where \<open>resolve\<close> can no longer take effect.
\<close>

definition on_ack :: "server_event \<Rightarrow> state_manager \<Rightarrow> pending_request \<Rightarrow> jsval \<Rightarrow> pending_request" where
  "on_ack ev sm r0 response =
     (if \<not> awaiting_ack r0 then r0
      else
        let r = r0\<lparr>awaiting_ack := False\<rparr>;
            r1 = (if \<not> truthy (opt_get response ''success'')
                  then (cleanup r)\<lparr>promise := reject (KrispSDKError UNKNOWN_ERROR (get_failure_message ev)) (promise r)\<rparr>
                  else r)
        in case cached ev sm of
             None \<Rightarrow> r1
           | Some currentState \<Rightarrow> (cleanup r1)\<lparr>promise := resolve currentState (promise r1)\<rparr>)"

text \<open>
  The socket delivers a domain's event to its listeners in the order of registration:
  first the forwarder installed at connect time, which runs the \<open>onMessage\<close> callback,
  then the one-shot \<open>handler\<close> of a pending get-state call.
\<close>

definition deliver ::
  "server_event \<Rightarrow> state_manager \<times> pending_request \<Rightarrow> jsval \<Rightarrow> int \<Rightarrow> int
     \<Rightarrow> (state_manager \<times> pending_request) \<times> emission list" where
  "deliver ev s data t0 t1 =
     (let (sm', out) = onMessage (fst s) ev data t0 t1 in ((sm', handler (snd s) data), out))"

text \<open>What can happen to a pending get-state call, and a run of such events.\<close>

datatype call_event = Push jsval int int | Ack jsval | Timeout

fun is_push :: "call_event \<Rightarrow> bool" where
  "is_push (Push data t0 t1) = True"
| "is_push e = False"

fun call_step :: "server_event \<Rightarrow> state_manager \<times> pending_request \<Rightarrow> call_event \<Rightarrow> state_manager \<times> pending_request" where
  "call_step ev s (Push data t0 t1) = fst (deliver ev s data t0 t1)"
| "call_step ev s (Ack response) = (fst s, on_ack ev (fst s) (snd s) response)"
| "call_step ev s Timeout = (fst s, on_timeout (snd s))"

definition call_run ::
  "server_event \<Rightarrow> state_manager \<times> pending_request \<Rightarrow> call_event list \<Rightarrow> state_manager \<times> pending_request" where
  "call_run ev s events = foldl (call_step ev) s events"

text \<open>The call as \<open>getState\<close> leaves it when the supervisor is connected.\<close>

definition issued :: pending_request where
  "issued = \<lparr>promise = Pending, timeout = Some 5000, listening = True, awaiting_ack = True\<rparr>"

fun is_resolved :: "promise \<Rightarrow> bool" where
  "is_resolved (Resolved v) = True"
| "is_resolved p = False"

text \<open>Listener and timer live exactly as long as the promise is pending.\<close>

definition torn_down_together :: "pending_request \<Rightarrow> bool" where
  "torn_down_together r \<longleftrightarrow>
     (if promise r = Pending then timeout r = Some 5000 \<and> listening r
      else timeout r = None \<and> \<not> listening r)"

text \<open>The only rejections are the two the method constructs.\<close>

definition rejection_known :: "server_event \<Rightarrow> pending_request \<Rightarrow> bool" where
  "rejection_known ev r \<longleftrightarrow>
     (case promise r of
        Rejected e \<Rightarrow> e = KrispSDKError CONNECTION_TIMEOUT ''Request timeout''
                      \<or> e = KrispSDKError UNKNOWN_ERROR (get_failure_message ev)
      | _ \<Rightarrow> True)"

text \<open>Sample payloads: a successful acknowledgement, and a device push.\<close>

definition ack_success :: jsval where
  "ack_success = JObj [(''success'', JBool True)]"

definition device_push :: jsval where
  "device_push = device_snapshot (JObj [(''id'', JStr ''mic-1'')]) (JNum 1000) JNull JUndefined"

text \<open>A device payload whose two entries are empty objects.\<close>

definition bare_device_payload :: jsval where
  "bare_device_payload = JObj [(''0'', JObj []), (''1'', JObj [])]"

section \<open>Facade (\<open>index.ts\<close>): subscriptions and recovery\<close>

record KrispSDKOptions = ConnectionOptions +
  autoSubscribe :: "bool option"
  autoSubscribeTopics :: "string list option"

text \<open>
  The Facade's own fields. \<open>subscribedTopics\<close> is a \<open>Set\<close>: a list without repetition, in
  insertion order, which is the order \<open>Array.from\<close> reads it in.
\<close>

record Facade =
  sdk_options :: KrispSDKOptions
  subscribedTopics :: "string list"
  wasConnected :: bool
  isReconnecting :: bool

definition add_topic :: "string \<Rightarrow> string list \<Rightarrow> string list" where
  "add_topic t ts = (if t \<in> set ts then ts else ts @ [t])"

text \<open>The synchronous part of \<open>subscribe(topics)\<close>; there is no listener.\<close>

definition subscribe :: "string list \<Rightarrow> bool \<Rightarrow> js_error + pending_request \<times> request" where
  "subscribe topics is_connected =
     (if \<not> is_connected then Inl (KrispSDKError CONNECTION_REFUSED ''Not connected to server'')
      else Inr (\<lparr>promise = Pending, timeout = Some 5000, listening = False, awaiting_ack = True\<rparr>,
                (''subscribe'', JObj [(''topics'', JArr (map JStr topics))])))"

text \<open>The timer's callback of \<open>subscribe\<close>: it only rejects.\<close>

definition subscribe_timeout :: "Facade \<times> pending_request \<Rightarrow> Facade \<times> pending_request" where
  "subscribe_timeout s =
     (if timeout (snd s) = None then s
      else (fst s, (snd s)\<lparr>timeout := None,
              promise := reject (KrispSDKError CONNECTION_TIMEOUT ''Request timeout'') (promise (snd s))\<rparr>))"

text \<open>
  \<open>confirmedTopics.forEach\<close>: a confirmed topic is added when \<open>topics.includes\<close> it, which
  only a string among the requested ones does.
\<close>

fun confirm_topics :: "string list \<Rightarrow> jsval list \<Rightarrow> string list \<Rightarrow> string list" where
  "confirm_topics topics [] subscribed = subscribed"
| "confirm_topics topics (JStr t # confirmed) subscribed =
     confirm_topics topics confirmed (if t \<in> set topics then add_topic t subscribed else subscribed)"
| "confirm_topics topics (v # confirmed) subscribed = confirm_topics topics confirmed subscribed"

text \<open>
  The acknowledgement callback of \<open>subscribe\<close>. The third component is what the callback
  throws: when \<open>response.subscribed\<close> is truthy and not an array, \<open>forEach\<close> is not a
  function, the timer is already cleared and the promise is left pending.
\<close>

definition subscribe_ack ::
  "string list \<Rightarrow> Facade \<times> pending_request \<Rightarrow> jsval \<Rightarrow> (Facade \<times> pending_request) \<times> js_error option" where
  "subscribe_ack topics s response =
     (if \<not> awaiting_ack (snd s) then (s, None)
      else
        let f = fst s; r = (snd s)\<lparr>awaiting_ack := False, timeout := None\<rparr> in
        if truthy (opt_get response ''success'')
        then (case js_or (opt_get response ''subscribed'') (JArr (map JStr topics)) of
                JArr confirmed \<Rightarrow>
                  ((f\<lparr>subscribedTopics := confirm_topics topics confirmed (subscribedTopics f)\<rparr>,
                    r\<lparr>promise := resolve JUndefined (promise r)\<rparr>), None)
              | _ \<Rightarrow> ((f, r), Some TypeError))
        else ((f, r\<lparr>promise := reject (KrispSDKError UNKNOWN_ERROR ''Failed to subscribe'') (promise r)\<rparr>),
              None))"

text \<open>
  \<open>emitConnectionChange\<close>: the Facade afterwards, and whether \<open>handleReconnection\<close> was
  started. The handlers are notified in either case.
\<close>

definition emitConnectionChange :: "Facade \<Rightarrow> ConnectionStatus \<Rightarrow> Facade \<times> bool" where
  "emitConnectionChange f status =
     (let justReconnected = (\<not> wasConnected f \<and> connected status \<and> isReconnecting f) in
      if connected status \<and> \<not> wasConnected f
      then (f\<lparr>isReconnecting := wasConnected f, wasConnected := True\<rparr>, justReconnected)
      else if \<not> connected status \<and> wasConnected f
      then (f\<lparr>wasConnected := False, isReconnecting := True\<rparr>, False)
      else (f, False))"

definition status_updates :: "Facade \<Rightarrow> ConnectionStatus list \<Rightarrow> Facade" where
  "status_updates f sts = foldl (\<lambda>g st. fst (emitConnectionChange g st)) f sts"

text \<open>
  The polling loop of \<open>handleReconnection\<close>: \<open>conn k\<close> is what \<open>isConnected()\<close> answers at
  the \<open>k\<close>-th evaluation of the loop condition. The test after the loop runs in the same
  turn as the last evaluation, so the result of the loop is its answer too.
\<close>

fun poll :: "(nat \<Rightarrow> bool) \<Rightarrow> nat \<Rightarrow> nat \<Rightarrow> bool" where
  "poll conn 0 k = conn k"
| "poll conn (Suc retries) k = (if conn k then True else poll conn retries (Suc k))"

text \<open>
  \<open>fetchInitialStates\<close>: the four get-state methods, started in one turn. It returns the
  requests emitted; a method that throws or rejects is swallowed by its \<open>catch\<close>, and
  every promise settles by its timer at the latest.
\<close>

definition fetchInitialStates :: "bool \<Rightarrow> request list" where
  "fetchInitialStates is_connected =
     concat (map (\<lambda>ev. case getState ev is_connected of Inl e \<Rightarrow> [] | Inr (r, req) \<Rightarrow> [req])
                 domain_events)"

definition default_topics :: "string list" where
  "default_topics = [''devices'', ''nc'', ''ac'', ''in_call'']"

text \<open>
  What the recovery meets: the connectivity readings of the polling loop, the reading
  when \<open>subscribe\<close> is called after the four promises have settled, and what comes first
  for the subscribe request, its acknowledgement or its timer.
\<close>

datatype subscribe_outcome = AckArrives jsval | TimerFires

record recovery_env =
  polls :: "nat \<Rightarrow> bool"
  connected_later :: bool
  subscribe_result :: subscribe_outcome

text \<open>
  How \<open>handleReconnection\<close> ends: it returns, or it stays suspended on a promise that
  will never settle. It has a \<open>try\<close>/\<open>catch\<close> around its whole body: it never throws.
  The four get-state methods start in the same turn as the test after the polling loop,
  so they find the supervisor connected; \<open>subscribe\<close> is called in a later turn and reads
  the connectivity again.
\<close>

datatype recovery_end = Completed | Suspended

definition handleReconnection :: "Facade \<Rightarrow> recovery_env \<Rightarrow> Facade \<times> request list \<times> recovery_end" where
  "handleReconnection f env =
     (if \<not> poll (polls env) 10 0 then (f, [], Completed)
      else
        let sent = fetchInitialStates True in
        if autoSubscribe (sdk_options f) = Some False then (f, sent, Completed)
        else
          let topics = (if subscribedTopics f \<noteq> [] then subscribedTopics f
                        else case autoSubscribeTopics (sdk_options f) of
                               Some ts \<Rightarrow> ts
                             | None \<Rightarrow> default_topics)
          in case subscribe topics (connected_later env) of
               Inl e \<Rightarrow> (f, sent, Completed)
             | Inr (r, req) \<Rightarrow>
                 (case subscribe_result env of
                    TimerFires \<Rightarrow> (fst (subscribe_timeout (f, r)), sent @ [req], Completed)
                  | AckArrives response \<Rightarrow>
                      (case subscribe_ack topics (f, r) response of
                         ((f', r'), None) \<Rightarrow> (f', sent @ [req], Completed)
                       | ((f', r'), Some e) \<Rightarrow> (f', sent @ [req], Suspended))))"

text \<open>The subscribe request for a list of topics.\<close>

definition subscribe_request :: "string list \<Rightarrow> request" where
  "subscribe_request topics = (''subscribe'', JObj [(''topics'', JArr (map JStr topics))])"

text \<open>The topics the recovery asks for.\<close>

definition recovery_topics :: "Facade \<Rightarrow> string list" where
  "recovery_topics f =
     (if subscribedTopics f \<noteq> [] then subscribedTopics f
      else case autoSubscribeTopics (sdk_options f) of Some ts \<Rightarrow> ts | None \<Rightarrow> default_topics)"

text \<open>
  Samples: a connection that stays up during the recovery and acknowledges; a Facade in a
  connected session that subscribed to \<open>devices\<close> by hand with auto-subscribe switched
  off; the status updates of a loss and of a reconnection.
\<close>

definition steady_env :: recovery_env where
  "steady_env = \<lparr>polls = (\<lambda>k. True), connected_later = True, subscribe_result = AckArrives (JObj [(''success'', JBool True)])\<rparr>"

definition manual_facade :: Facade where
  "manual_facade =
     \<lparr>sdk_options = \<lparr>connectionTimeout = None, autoReconnect = None, maxReconnectAttempts = None,
                      autoSubscribe = Some False, autoSubscribeTopics = None\<rparr>,
      subscribedTopics = [''devices''], wasConnected = True, isReconnecting = False\<rparr>"

definition auto_facade :: Facade where
  "auto_facade =
     \<lparr>sdk_options = \<lparr>connectionTimeout = None, autoReconnect = None, maxReconnectAttempts = None,
                      autoSubscribe = None, autoSubscribeTopics = None\<rparr>,
      subscribedTopics = [''devices'', ''nc''], wasConnected = True, isReconnecting = False\<rparr>"

definition status_down :: ConnectionStatus where
  "status_down = failure_status CONNECTION_REFUSED ''Disconnected: transport close''"

definition status_connecting :: ConnectionStatus where
  "status_connecting = \<lparr>connected = False, connecting = True, port = None, status_error = None\<rparr>"

definition status_up :: ConnectionStatus where
  "status_up = \<lparr>connected = True, connecting = False, port = Some 50190, status_error = None\<rparr>"

definition fresh_facade :: Facade where
  "fresh_facade =
     \<lparr>sdk_options = \<lparr>connectionTimeout = None, autoReconnect = None, maxReconnectAttempts = None,
                      autoSubscribe = None, autoSubscribeTopics = None\<rparr>,
      subscribedTopics = [], wasConnected = False, isReconnecting = False\<rparr>"

text \<open>The acknowledgement \<open>{success: true, subscribed: ['devices']}\<close>.\<close>

definition ack_devices_only :: jsval where
  "ack_devices_only = JObj [(''success'', JBool True), (''subscribed'', JArr [JStr ''devices''])]"

text \<open>
  What can happen to a \<open>subscribe\<close> call after it is issued, and a run of such events.
  The timer's callback does not disarm the acknowledgement callback, and what the
  acknowledgement callback throws is caught by nobody: the run goes on from the state the
  callback left.
\<close>

datatype subscribe_event = AckEvent jsval | TimerEvent

fun subscribe_step ::
  "string list \<Rightarrow> Facade \<times> pending_request \<Rightarrow> subscribe_event \<Rightarrow> Facade \<times> pending_request" where
  "subscribe_step topics s (AckEvent response) = fst (subscribe_ack topics s response)"
| "subscribe_step topics s TimerEvent = subscribe_timeout s"

definition subscribe_run ::
  "string list \<Rightarrow> Facade \<times> pending_request \<Rightarrow> subscribe_event list \<Rightarrow> Facade \<times> pending_request" where
  "subscribe_run topics s events = foldl (subscribe_step topics) s events"

text \<open>The request as \<open>subscribe\<close> leaves it when the supervisor is connected.\<close>

definition issued_subscribe :: pending_request where
  "issued_subscribe = \<lparr>promise = Pending, timeout = Some 5000, listening = False, awaiting_ack = True\<rparr>"

section \<open>Properties of the State Cache\<close>

subsection \<open>Basic facts\<close>

lemma ebind_Inr [simp]: "ebind (Inr v) f = f v" by (simp add: ebind_def)
lemma ebind_Inl [simp]: "ebind (Inl e) f = Inl e" by (simp add: ebind_def)

lemma ebind_eq_Inr: "ebind m f = Inr r \<longleftrightarrow> (\<exists>v. m = Inr v \<and> f v = Inr r)"
  by (cases m) auto



lemma is_object_get: "is_object v \<Longrightarrow> \<exists>w. js_get v k = Inr w"
  by (cases v) (auto simp: is_object_def)


lemma device_norm_shape:
  assumes "validateAndNormalizeDeviceState p t0 t1 = Inr s"
  shows "\<exists>p0 u0 p1 u1. s = JObj
            [(''0'', JObj [(''physicalDeviceInfo'', js_or p0 JNull), (''updatedAt'', js_or u0 (JNum t0))]),
             (''1'', JObj [(''physicalDeviceInfo'', js_or p1 JNull), (''updatedAt'', js_or u1 (JNum t1))])]"
  using assms
  by (auto simp: validateAndNormalizeDeviceState_def ebind_eq_Inr split: if_splits)


lemma enabled_norm_shape:
  assumes "normalize_enabled msg p t0 t1 = Inr s"
  shows "\<exists>b0 u0 b1 u1. s = JObj
            [(''0'', JObj [(''enabled'', JBool b0), (''updatedAt'', js_or u0 (JNum t0))]),
             (''1'', JObj [(''enabled'', JBool b1), (''updatedAt'', js_or u1 (JNum t1))])]"
  using assms
  by (auto simp: normalize_enabled_def ebind_eq_Inr Boolean_def split: if_splits)


lemma in_call_norm_shape:
  assumes "validateAndNormalizeInCallState p t0 = Inr s"
  shows "\<exists>b u. s = JObj [(''inCall'', JBool b), (''updatedAt'', js_or u (JNum t0))]"
  using assms
  by (auto simp: validateAndNormalizeInCallState_def ebind_eq_Inr Boolean_def split: if_splits)



lemma domain_cases:
  assumes "ev \<in> set domain_events"
  obtains "ev = device_state" | "ev = nc_state" | "ev = ac_state" | "ev = in_call_state"
  using assms by (auto simp: domain_events_def)



lemma update_replaces:
  assumes "ev \<in> set domain_events" "handleMessage sm ev p t0 t1 = Inr (sm', out)"
  shows "\<exists>s. normalize ev p t0 t1 = Inr s \<and> cached ev sm' = Some s
            \<and> (out = [] \<or> out = [(change_event ev, s)])"
  using assms(1)
proof (cases rule: domain_cases)
  case 1
  with assms(2) show ?thesis
    by (auto simp: updateDeviceState_def ebind_eq_Inr)
next
  case 2
  with assms(2) show ?thesis
    by (auto simp: updateNcState_def ebind_eq_Inr)
next
  case 3
  with assms(2) show ?thesis
    by (auto simp: updateAcState_def ebind_eq_Inr)
next
  case 4
  with assms(2) show ?thesis
    by (auto simp: updateInCallState_def ebind_eq_Inr)
qed



subsection \<open>Decimal text is injective\<close>

lemma digit_inj: "i < 10 \<Longrightarrow> j < 10 \<Longrightarrow> ''0123456789'' ! i = ''0123456789'' ! j \<Longrightarrow> i = j"
  by (simp add: nth_eq_iff_index_eq)

lemma digit_not_minus: "i < 10 \<Longrightarrow> ''0123456789'' ! i \<noteq> CHR ''-''"
proof -
  assume "i < 10"
  then have "''0123456789'' ! i \<in> set ''0123456789''" by (intro nth_mem) simp
  then show ?thesis by auto
qed

lemma show_nat_small: "n < 10 \<Longrightarrow> show_nat n = [''0123456789'' ! n]"
  by (subst show_nat.simps) simp

lemma show_nat_large: "\<not> n < 10 \<Longrightarrow> show_nat n = show_nat (n div 10) @ [''0123456789'' ! (n mod 10)]"
  by (subst show_nat.simps) simp

lemma show_nat_not_Nil: "show_nat n \<noteq> []"
  by (cases "n < 10") (simp_all add: show_nat_small show_nat_large)

lemma show_nat_hd: "hd (show_nat n) \<noteq> CHR ''-''"
proof (induction n rule: less_induct)
  case (less n)
  show ?case
  proof (cases "n < 10")
    case True
    then show ?thesis using digit_not_minus [of n] by (simp add: show_nat_small)
  next
    case False
    then have "n div 10 < n" by simp
    from less [OF this] False show ?thesis
      by (simp add: show_nat_large show_nat_not_Nil)
  qed
qed

lemma show_nat_inj: "show_nat m = show_nat n \<Longrightarrow> m = n"
proof (induction m arbitrary: n rule: less_induct)
  case (less m)
  show ?case
  proof (cases "m < 10")
    case m: True
    show ?thesis
    proof (cases "n < 10")
      case True
      with m less.prems show ?thesis by (simp add: show_nat_small digit_inj)
    next
      case False
      with m less.prems show_nat_not_Nil [of "n div 10"] show ?thesis
        by (simp add: show_nat_small show_nat_large)
    qed
  next
    case m: False
    show ?thesis
    proof (cases "n < 10")
      case True
      with m less.prems show_nat_not_Nil [of "m div 10"] show ?thesis
        by (simp add: show_nat_small show_nat_large)
    next
      case False
      with m less.prems have a: "show_nat (m div 10) = show_nat (n div 10)"
        and b: "''0123456789'' ! (m mod 10) = ''0123456789'' ! (n mod 10)"
        by (simp_all add: show_nat_large)
      from m have "m div 10 < m" by simp
      from less.IH [OF this a] have "m div 10 = n div 10" .
      moreover from b have "m mod 10 = n mod 10" by (intro digit_inj) simp_all
      ultimately show ?thesis by (metis div_mult_mod_eq)
    qed
  qed
qed

lemma show_int_inj: "show_int a = show_int b \<Longrightarrow> a = b"
proof -
  assume h: "show_int a = show_int b"
  have neg: "\<And>x y. CHR ''-'' # show_nat x \<noteq> show_nat y"
    using show_nat_hd show_nat_not_Nil by (metis list.sel(1))
  show ?thesis
  proof (cases "a < 0")
    case a: True
    show ?thesis
    proof (cases "b < 0")
      case True
      with a h have "nat (- a) = nat (- b)" by (simp add: show_int_def show_nat_inj)
      with a True show ?thesis by simp
    next
      case False
      with a h neg show ?thesis by (simp add: show_int_def)
    qed
  next
    case a: False
    show ?thesis
    proof (cases "b < 0")
      case True
      with a h neg [of "nat (- b)" "nat a"] show ?thesis by (simp add: show_int_def)
    next
      case False
      with a h have "nat a = nat b" by (simp add: show_int_def show_nat_inj)
      with a False show ?thesis by simp
    qed
  qed
qed

lemma entry_text_differs:
  assumes "a \<noteq> b"
  shows "stringify (JObj [(''physicalDeviceInfo'', p), (''updatedAt'', JNum a)])
       \<noteq> stringify (JObj [(''physicalDeviceInfo'', p), (''updatedAt'', JNum b)])"
  using assms show_int_inj [of a b]
  by (cases "stringify p") auto

subsection \<open>Timestamps and the change comparison\<close>

lemma enabled_same_values:
  "enabled_changed (enabled_snapshot b0 a0 b1 a1) (enabled_snapshot b0 c0 b1 c1) = Inr False"
  by (simp add: enabled_changed_def enabled_snapshot_def strict_equals_def)

lemma normalize_enabled_snapshot:
  "normalize_enabled msg (enabled_snapshot b0 c0 b1 c1) t0 t1
     = Inr (enabled_snapshot b0 (js_or c0 (JNum t0)) b1 (js_or c1 (JNum t1)))"
  by (simp add: normalize_enabled_def enabled_snapshot_def opt_get_def Boolean_def)

lemma in_call_same_values:
  "hasInCallStateChanged (in_call_snapshot b a) (in_call_snapshot b c) = Inr False"
  by (simp add: hasInCallStateChanged_def in_call_snapshot_def strict_equals_def)

lemma normalize_in_call_snapshot:
  "validateAndNormalizeInCallState (in_call_snapshot b c) t0
     = Inr (in_call_snapshot b (js_or c (JNum t0)))"
  by (simp add: validateAndNormalizeInCallState_def in_call_snapshot_def Boolean_def)

lemma device_timestamp_changed:
  assumes "a0 \<noteq> c0 \<or> a1 \<noteq> c1"
  shows "hasDeviceStateChanged (device_snapshot p0 (JNum a0) p1 (JNum a1))
           (device_snapshot p0 (JNum c0) p1 (JNum c1)) = Inr True"
proof (cases "a0 = c0")
  case True
  with assms have "a1 \<noteq> c1" by simp
  from entry_text_differs [OF this, of p1] show ?thesis
    by (simp add: hasDeviceStateChanged_def device_snapshot_def del: stringify.simps)
next
  case False
  from entry_text_differs [OF this, of p0] show ?thesis
    by (simp add: hasDeviceStateChanged_def device_snapshot_def del: stringify.simps)
qed

lemma normalize_device_snapshot:
  "validateAndNormalizeDeviceState (device_snapshot p0 c0 p1 c1) t0 t1
     = Inr (device_snapshot (js_or p0 JNull) (js_or c0 (JNum t0)) (js_or p1 JNull) (js_or c1 (JNum t1)))"
  by (simp add: validateAndNormalizeDeviceState_def device_snapshot_def)

text \<open>
  Claim C2, as amended. For noise-cancellation, accent-conversion and in-call, a payload
  that repeats the cached snapshot's value fields is stored (a timestamp that is missing
  or falsy is filled from the clock) and emits no change notification, whatever its
  \<open>updatedAt\<close> fields are. For devices the comparison is on the JSON text of each whole
  channel entry, \<open>updatedAt\<close> included: a payload that repeats the cached snapshot's
  \<open>physicalDeviceInfo\<close> fields and differs from it in a numeric \<open>updatedAt\<close> is stored and
  does emit \<open>devicesChanged\<close>.
\<close>

theorem timestamp_only_difference:
  "(ncState sm = Some (enabled_snapshot b0 a0 b1 a1) \<longrightarrow>
      handleMessage sm nc_state (enabled_snapshot b0 c0 b1 c1) t0 t1
        = Inr (sm\<lparr>ncState := Some (enabled_snapshot b0 (js_or c0 (JNum t0)) b1 (js_or c1 (JNum t1)))\<rparr>, []))
 \<and> (acState sm = Some (enabled_snapshot b0 a0 b1 a1) \<longrightarrow>
      handleMessage sm ac_state (enabled_snapshot b0 c0 b1 c1) t0 t1
        = Inr (sm\<lparr>acState := Some (enabled_snapshot b0 (js_or c0 (JNum t0)) b1 (js_or c1 (JNum t1)))\<rparr>, []))
 \<and> (inCallState sm = Some (in_call_snapshot b0 a0) \<longrightarrow>
      handleMessage sm in_call_state (in_call_snapshot b0 c0) t0 t1
        = Inr (sm\<lparr>inCallState := Some (in_call_snapshot b0 (js_or c0 (JNum t0)))\<rparr>, []))
 \<and> (deviceState sm = Some (device_snapshot p0 (JNum m0) p1 (JNum m1)) \<longrightarrow> (m0 \<noteq> n0 \<or> m1 \<noteq> n1) \<longrightarrow>
      handleMessage sm device_state (device_snapshot p0 (JNum n0) p1 (JNum n1)) t0 t1
        = Inr (sm\<lparr>deviceState := Some (device_snapshot (js_or p0 JNull) (js_or (JNum n0) (JNum t0))
                                                 (js_or p1 JNull) (js_or (JNum n1) (JNum t1)))\<rparr>,
               [(DEVICES_CHANGED, device_snapshot (js_or p0 JNull) (js_or (JNum n0) (JNum t0))
                                                  (js_or p1 JNull) (js_or (JNum n1) (JNum t1)))]))"
  by (simp add: updateNcState_def updateAcState_def updateInCallState_def updateDeviceState_def
      has_changed_def hasNcStateChanged_def hasAcStateChanged_def
      validateAndNormalizeNcState_def validateAndNormalizeAcState_def
      enabled_same_values normalize_enabled_snapshot in_call_same_values normalize_in_call_snapshot
      device_timestamp_changed normalize_device_snapshot)

text \<open>
  The claim as stated fails for devices: the cached snapshot and the payload below agree
  in both \<open>physicalDeviceInfo\<close> fields and differ only in the microphone entry's
  \<open>updatedAt\<close>, and the update emits \<open>devicesChanged\<close>.
\<close>

theorem device_timestamp_counterexample:
  "handleMessage
     \<lparr>deviceState = Some (device_snapshot JNull (JNum 1000) JNull (JNum 1000)),
      ncState = None, acState = None, inCallState = None\<rparr>
     device_state (device_snapshot JNull (JNum 2000) JNull (JNum 1000)) 3000 3000
   = Inr (\<lparr>deviceState = Some (device_snapshot JNull (JNum 2000) JNull (JNum 1000)),
           ncState = None, acState = None, inCallState = None\<rparr>,
          [(DEVICES_CHANGED, device_snapshot JNull (JNum 2000) JNull (JNum 1000))])"
  by (simp add: updateDeviceState_def has_changed_def hasDeviceStateChanged_def
      validateAndNormalizeDeviceState_def device_snapshot_def js_or_def show_int_def show_nat.simps)


theorem timestamp_only_difference_witness:
  "handleMessage
     \<lparr>deviceState = Some (device_snapshot JNull (JNum 1000) JNull (JNum 1000)),
      ncState = Some (enabled_snapshot True (JNum 1000) False (JNum 1000)),
      acState = Some (enabled_snapshot True (JNum 1000) False (JNum 1000)),
      inCallState = Some (in_call_snapshot True (JNum 1000))\<rparr>
     nc_state (enabled_snapshot True (JNum 2000) False (JNum 2000)) 3000 3000
   = Inr (\<lparr>deviceState = Some (device_snapshot JNull (JNum 1000) JNull (JNum 1000)),
      ncState = Some (enabled_snapshot True (JNum 2000) False (JNum 2000)),
      acState = Some (enabled_snapshot True (JNum 1000) False (JNum 1000)),
      inCallState = Some (in_call_snapshot True (JNum 1000))\<rparr>, [])
 \<and> handleMessage
     \<lparr>deviceState = Some (device_snapshot JNull (JNum 1000) JNull (JNum 1000)),
      ncState = Some (enabled_snapshot True (JNum 1000) False (JNum 1000)),
      acState = Some (enabled_snapshot True (JNum 1000) False (JNum 1000)),
      inCallState = Some (in_call_snapshot True (JNum 1000))\<rparr>
     ac_state (enabled_snapshot True (JNum 2000) False (JNum 2000)) 3000 3000
   = Inr (\<lparr>deviceState = Some (device_snapshot JNull (JNum 1000) JNull (JNum 1000)),
      ncState = Some (enabled_snapshot True (JNum 1000) False (JNum 1000)),
      acState = Some (enabled_snapshot True (JNum 2000) False (JNum 2000)),
      inCallState = Some (in_call_snapshot True (JNum 1000))\<rparr>, [])
 \<and> handleMessage
     \<lparr>deviceState = Some (device_snapshot JNull (JNum 1000) JNull (JNum 1000)),
      ncState = Some (enabled_snapshot True (JNum 1000) False (JNum 1000)),
      acState = Some (enabled_snapshot True (JNum 1000) False (JNum 1000)),
      inCallState = Some (in_call_snapshot True (JNum 1000))\<rparr>
     in_call_state (in_call_snapshot True (JNum 2000)) 3000 3000
   = Inr (\<lparr>deviceState = Some (device_snapshot JNull (JNum 1000) JNull (JNum 1000)),
      ncState = Some (enabled_snapshot True (JNum 1000) False (JNum 1000)),
      acState = Some (enabled_snapshot True (JNum 1000) False (JNum 1000)),
      inCallState = Some (in_call_snapshot True (JNum 2000))\<rparr>, [])
 \<and> handleMessage
     \<lparr>deviceState = Some (device_snapshot JNull (JNum 1000) JNull (JNum 1000)),
      ncState = Some (enabled_snapshot True (JNum 1000) False (JNum 1000)),
      acState = Some (enabled_snapshot True (JNum 1000) False (JNum 1000)),
      inCallState = Some (in_call_snapshot True (JNum 1000))\<rparr>
     device_state (device_snapshot JNull (JNum 2000) JNull (JNum 1000)) 3000 3000
   = Inr (\<lparr>deviceState = Some (device_snapshot JNull (JNum 2000) JNull (JNum 1000)),
      ncState = Some (enabled_snapshot True (JNum 1000) False (JNum 1000)),
      acState = Some (enabled_snapshot True (JNum 1000) False (JNum 1000)),
      inCallState = Some (in_call_snapshot True (JNum 1000))\<rparr>,
      [(DEVICES_CHANGED, device_snapshot JNull (JNum 2000) JNull (JNum 1000))])"
  using timestamp_only_difference [where
      sm = "\<lparr>deviceState = Some (device_snapshot JNull (JNum 1000) JNull (JNum 1000)),
      ncState = Some (enabled_snapshot True (JNum 1000) False (JNum 1000)),
      acState = Some (enabled_snapshot True (JNum 1000) False (JNum 1000)),
      inCallState = Some (in_call_snapshot True (JNum 1000))\<rparr>"
      and ?b0.0 = True and ?a0.0 = "JNum 1000" and ?b1.0 = False and ?a1.0 = "JNum 1000"
      and ?c0.0 = "JNum 2000" and ?c1.0 = "JNum 2000" and ?t0.0 = 3000 and ?t1.0 = 3000
      and ?p0.0 = JNull and ?m0.0 = 1000 and ?p1.0 = JNull and ?m1.0 = 1000
      and ?n0.0 = 2000 and ?n1.0 = 1000]
  by (simp add: js_or_def)

subsection \<open>When processing raises\<close>

lemma is_object_cases: "is_object v \<longleftrightarrow> (\<exists>xs. v = JArr xs) \<or> (\<exists>kvs. v = JObj kvs)"
  by (cases v) (auto simp: is_object_def)

lemma get_of_object: "is_object v \<Longrightarrow> js_get v k = Inr (opt_get v k)"
  by (cases v) (auto simp: is_object_def opt_get_def)

lemma get_of_non_object: "typeof v = ''object'' \<Longrightarrow> \<not> is_object v \<Longrightarrow> js_get v k = Inl TypeError"
  by (cases v) (auto simp: is_object_def)

lemma ebind_raises: "(\<And>v. \<exists>e. f v = Inl e) \<Longrightarrow> \<exists>e. ebind m f = Inl e"
  by (cases m) auto

lemma device_normalize_raises_iff:
  "(\<exists>e. validateAndNormalizeDeviceState p t0 t1 = Inl e)
     \<longleftrightarrow> \<not> (is_object p \<and> is_object (opt_get p ''0'') \<and> is_object (opt_get p ''1''))"
proof (cases "is_object p")
  case False
  then show ?thesis by (auto simp: validateAndNormalizeDeviceState_def is_object_def)
next
  case p: True
  then have tp: "truthy p" "typeof p = ''object''" by (simp_all add: is_object_def)
  show ?thesis
  proof (cases "typeof (opt_get p ''0'') = ''object'' \<and> typeof (opt_get p ''1'') = ''object''")
    case False
    then have "\<not> (is_object (opt_get p ''0'') \<and> is_object (opt_get p ''1''))"
      by (auto simp: is_object_def)
    with p tp False show ?thesis
      by (auto simp: validateAndNormalizeDeviceState_def get_of_object)
  next
    case ty: True
    show ?thesis
    proof (cases "is_object (opt_get p ''0'')")
      case False
      with p tp ty show ?thesis
        by (simp add: validateAndNormalizeDeviceState_def get_of_object get_of_non_object)
    next
      case o0: True
      show ?thesis
      proof (cases "is_object (opt_get p ''1'')")
        case False
        with p tp ty o0 show ?thesis
          by (simp add: validateAndNormalizeDeviceState_def get_of_object get_of_non_object)
      next
        case True
        with p tp ty o0 show ?thesis
          by (simp add: validateAndNormalizeDeviceState_def get_of_object)
      qed
    qed
  qed
qed

lemma enabled_normalize_raises_iff:
  "(\<exists>e. normalize_enabled msg p t0 t1 = Inl e) \<longleftrightarrow> \<not> is_object p"
  by (cases "is_object p") (auto simp: normalize_enabled_def get_of_object is_object_def)

lemma in_call_normalize_raises_iff:
  "(\<exists>e. validateAndNormalizeInCallState p t0 = Inl e) \<longleftrightarrow> \<not> is_object p"
  by (cases "is_object p") (auto simp: validateAndNormalizeInCallState_def get_of_object is_object_def)

lemma normalize_raises_non_object:
  assumes "ev \<in> set domain_events" "\<not> is_object p"
  shows "\<exists>e. normalize ev p t0 t1 = Inl e"
  using assms device_normalize_raises_iff [of p t0 t1]
    enabled_normalize_raises_iff [of _ p t0 t1] in_call_normalize_raises_iff [of p t0]
  by (auto simp: domain_events_def validateAndNormalizeNcState_def validateAndNormalizeAcState_def)

lemma update_raises_when_normalize_raises:
  assumes "ev \<in> set domain_events" "normalize ev p t0 t1 = Inl e"
  shows "\<exists>e'. handleMessage sm ev p t0 t1 = Inl e'"
proof -
  have *: "\<And>m :: js_error + bool. \<exists>e'. ebind m (\<lambda>h. Inl e) = (Inl e' :: js_error + state_manager \<times> emission list)"
    by (rule ebind_raises) simp
  from assms show ?thesis
    by (auto simp: domain_events_def updateDeviceState_def updateNcState_def updateAcState_def
        updateInCallState_def *)
qed


lemma cache_wf_cached: "cache_wf sm \<Longrightarrow> ev \<in> set domain_events \<Longrightarrow> cached ev sm = Some s \<Longrightarrow> is_object s"
  by (auto simp: cache_wf_def split: option.splits)

lemma cache_wf_new: "cache_wf new_state_manager"
  by (simp add: cache_wf_def new_state_manager_def domain_events_def)

lemma device_compare_total:
  assumes "is_object old" "is_object p"
  shows "\<exists>h. hasDeviceStateChanged old p = Inr h"
  using assms by (auto simp: hasDeviceStateChanged_def get_of_object)

lemma in_call_compare_total:
  assumes "is_object old" "is_object p"
  shows "\<exists>h. hasInCallStateChanged old p = Inr h"
  using assms by (simp add: hasInCallStateChanged_def get_of_object)

lemma device_update_raises_iff:
  assumes "cache_wf sm"
  shows "(\<exists>e. handleMessage sm device_state p t0 t1 = Inl e)
     \<longleftrightarrow> \<not> (is_object p \<and> is_object (opt_get p ''0'') \<and> is_object (opt_get p ''1''))"
proof (cases "\<exists>e. validateAndNormalizeDeviceState p t0 t1 = Inl e")
  case True
  then obtain e where "normalize device_state p t0 t1 = Inl e" by auto
  from update_raises_when_normalize_raises [OF _ this, of sm] True show ?thesis
    by (simp add: device_normalize_raises_iff domain_events_def del: handleMessage.simps)
next
  case False
  then have obj: "is_object p \<and> is_object (opt_get p ''0'') \<and> is_object (opt_get p ''1'')"
    by (simp add: device_normalize_raises_iff)
  from False obtain s where s: "validateAndNormalizeDeviceState p t0 t1 = Inr s"
    by (cases "validateAndNormalizeDeviceState p t0 t1") auto
  have "\<exists>h. has_changed (deviceState sm) hasDeviceStateChanged p = Inr h"
  proof (cases "deviceState sm")
    case None
    then show ?thesis by (auto simp: has_changed_def)
  next
    case (Some old)
    with assms have "is_object old"
      using cache_wf_cached [of sm device_state old] by (simp add: domain_events_def)
    with Some obj device_compare_total [of old p] show ?thesis by (simp add: has_changed_def)
  qed
  with s obj show ?thesis by (auto simp: updateDeviceState_def)
qed

lemma in_call_update_raises_iff:
  assumes "cache_wf sm"
  shows "(\<exists>e. handleMessage sm in_call_state p t0 t1 = Inl e) \<longleftrightarrow> \<not> is_object p"
proof (cases "\<exists>e. validateAndNormalizeInCallState p t0 = Inl e")
  case True
  then obtain e where "normalize in_call_state p t0 t1 = Inl e" by auto
  from update_raises_when_normalize_raises [OF _ this, of sm] True show ?thesis
    by (simp add: in_call_normalize_raises_iff domain_events_def del: handleMessage.simps)
next
  case False
  then have obj: "is_object p"
    by (simp add: in_call_normalize_raises_iff)
  from False obtain s where s: "validateAndNormalizeInCallState p t0 = Inr s"
    by (cases "validateAndNormalizeInCallState p t0") auto
  have "\<exists>h. has_changed (inCallState sm) hasInCallStateChanged p = Inr h"
  proof (cases "inCallState sm")
    case None
    then show ?thesis by (auto simp: has_changed_def)
  next
    case (Some old)
    with assms have "is_object old"
      using cache_wf_cached [of sm in_call_state old] by (simp add: domain_events_def)
    with Some obj in_call_compare_total [of old p] show ?thesis by (simp add: has_changed_def)
  qed
  with s obj show ?thesis by (auto simp: updateInCallState_def)
qed

lemma enabled_update_raises_iff_uncached:
  "(\<exists>e. handleMessage (sm\<lparr>ncState := None\<rparr>) nc_state p t0 t1 = Inl e) \<longleftrightarrow> \<not> is_object p"
  "(\<exists>e. handleMessage (sm\<lparr>acState := None\<rparr>) ac_state p t0 t1 = Inl e) \<longleftrightarrow> \<not> is_object p"
  using enabled_normalize_raises_iff [of "''Invalid NC state: must be an object''" p t0 t1]
    enabled_normalize_raises_iff [of "''Invalid AC state: must be an object''" p t0 t1]
  by (cases "normalize_enabled ''Invalid NC state: must be an object'' p t0 t1";
      cases "normalize_enabled ''Invalid AC state: must be an object'' p t0 t1";
      simp add: updateNcState_def updateAcState_def has_changed_def
        validateAndNormalizeNcState_def validateAndNormalizeAcState_def)+

lemma onMessage_on_raise:
  "handleMessage sm ev p t0 t1 = Inl e \<Longrightarrow>
     onMessage sm ev p t0 t1
       = (sm, [(ERROR, JObj [(''code'', JStr ''INVALID_MESSAGE''),
                             (''message'', JStr (''Failed to process message: '' @ error_to_string e)),
                             (''originalError'', JUndefined)])])"
  by (simp add: onMessage_def emitError_def)


lemma cache_wf_iff:
  "cache_wf sm \<longleftrightarrow>
     (\<forall>s. deviceState sm = Some s \<longrightarrow> is_object s) \<and> (\<forall>s. ncState sm = Some s \<longrightarrow> is_object s)
   \<and> (\<forall>s. acState sm = Some s \<longrightarrow> is_object s) \<and> (\<forall>s. inCallState sm = Some s \<longrightarrow> is_object s)"
  by (simp add: cache_wf_def domain_events_def split: option.splits)

lemma normalized_is_object:
  assumes "ev \<in> set domain_events" "normalize ev p t0 t1 = Inr s"
  shows "is_object s"
  using assms(1)
proof (cases rule: domain_cases)
  case 1
  with assms(2) have "validateAndNormalizeDeviceState p t0 t1 = Inr s" by simp
  from device_norm_shape [OF this] show ?thesis
    by (elim exE) (simp add: is_object_def)
next
  case 2
  with assms(2) have "normalize_enabled ''Invalid NC state: must be an object'' p t0 t1 = Inr s"
    by (simp add: validateAndNormalizeNcState_def)
  from enabled_norm_shape [OF this] show ?thesis
    by (elim exE) (simp add: is_object_def)
next
  case 3
  with assms(2) have "normalize_enabled ''Invalid AC state: must be an object'' p t0 t1 = Inr s"
    by (simp add: validateAndNormalizeAcState_def)
  from enabled_norm_shape [OF this] show ?thesis
    by (elim exE) (simp add: is_object_def)
next
  case 4
  with assms(2) have "validateAndNormalizeInCallState p t0 = Inr s" by simp
  from in_call_norm_shape [OF this] show ?thesis
    by (elim exE) (simp add: is_object_def)
qed

lemma cache_wf_preserved:
  assumes "cache_wf sm" "handleMessage sm ev p t0 t1 = Inr (sm', out)"
  shows "cache_wf sm'"
proof (cases "ev \<in> set domain_events")
  case False
  then have "ev = error \<or> ev = pong"
    by (cases ev) (simp_all add: domain_events_def)
  with assms show ?thesis by auto
next
  case True
  from update_replaces [OF True assms(2)] obtain s where
    n: "normalize ev p t0 t1 = Inr s" and c: "cached ev sm' = Some s" by blast
  from normalized_is_object [OF True n] have o: "is_object s" .
  from True show ?thesis
  proof (cases rule: domain_cases)
    case 1
    with assms(2) n have "sm' = sm\<lparr>deviceState := Some s\<rparr>"
      by (auto simp: updateDeviceState_def ebind_eq_Inr)
    with assms(1) o show ?thesis by (simp add: cache_wf_iff)
  next
    case 2
    with assms(2) n have "sm' = sm\<lparr>ncState := Some s\<rparr>"
      by (auto simp: updateNcState_def ebind_eq_Inr)
    with assms(1) o show ?thesis by (simp add: cache_wf_iff)
  next
    case 3
    with assms(2) n have "sm' = sm\<lparr>acState := Some s\<rparr>"
      by (auto simp: updateAcState_def ebind_eq_Inr)
    with assms(1) o show ?thesis by (simp add: cache_wf_iff)
  next
    case 4
    with assms(2) n have "sm' = sm\<lparr>inCallState := Some s\<rparr>"
      by (auto simp: updateInCallState_def ebind_eq_Inr)
    with assms(1) o show ?thesis by (simp add: cache_wf_iff)
  qed
qed

text \<open>
  Claim C9, as amended. For each of the four domains, a payload that is not an object
  makes processing raise. For in-call that is the only cause, and so it is for
  noise-cancellation and accent-conversion while nothing is cached; for devices
  processing raises exactly when the payload, its microphone entry or its speaker entry
  is not an object (the structural check of the device normalizer). Whenever processing
  raises, the Facade's message callback returns normally with the cache unchanged, and
  the only event it emits is one \<open>error\<close> event with code \<open>INVALID_MESSAGE\<close>: no change
  event, nothing thrown to a caller.
\<close>

theorem processing_failure:
  assumes "cache_wf sm" and "ev \<in> set domain_events"
  shows "(\<not> is_object p \<longrightarrow> (\<exists>e. handleMessage sm ev p t0 t1 = Inl e))
       \<and> ((\<exists>e. handleMessage sm in_call_state p t0 t1 = Inl e) \<longleftrightarrow> \<not> is_object p)
       \<and> (ev \<noteq> device_state \<longrightarrow> cached ev sm = None \<longrightarrow>
            ((\<exists>e. handleMessage sm ev p t0 t1 = Inl e) \<longleftrightarrow> \<not> is_object p))
       \<and> ((\<exists>e. handleMessage sm device_state p t0 t1 = Inl e)
            \<longleftrightarrow> \<not> (is_object p \<and> is_object (opt_get p ''0'') \<and> is_object (opt_get p ''1'')))
       \<and> (\<forall>e. handleMessage sm ev p t0 t1 = Inl e \<longrightarrow>
            onMessage sm ev p t0 t1
              = (sm, [(ERROR, JObj [(''code'', JStr ''INVALID_MESSAGE''),
                                    (''message'', JStr (''Failed to process message: '' @ error_to_string e)),
                                    (''originalError'', JUndefined)])]))"
proof (intro conjI impI allI)
  assume "\<not> is_object p"
  from normalize_raises_non_object [OF assms(2) this] obtain e where "normalize ev p t0 t1 = Inl e"
    by blast
  from update_raises_when_normalize_raises [OF assms(2) this] show "\<exists>e. handleMessage sm ev p t0 t1 = Inl e" .
next
  show "(\<exists>e. handleMessage sm in_call_state p t0 t1 = Inl e) \<longleftrightarrow> \<not> is_object p"
    by (rule in_call_update_raises_iff [OF assms(1)])
next
  assume ev: "ev \<noteq> device_state" and c: "cached ev sm = None"
  from assms(2) ev consider "ev = nc_state" | "ev = ac_state" | "ev = in_call_state"
    by (auto simp: domain_events_def)
  then show "(\<exists>e. handleMessage sm ev p t0 t1 = Inl e) \<longleftrightarrow> \<not> is_object p"
  proof cases
    case 1
    with c have "sm\<lparr>ncState := None\<rparr> = sm" by simp
    with 1 enabled_update_raises_iff_uncached(1) [of sm p t0 t1] show ?thesis by simp
  next
    case 2
    with c have "sm\<lparr>acState := None\<rparr> = sm" by simp
    with 2 enabled_update_raises_iff_uncached(2) [of sm p t0 t1] show ?thesis by simp
  next
    case 3
    with in_call_update_raises_iff [OF assms(1)] show ?thesis by simp
  qed
next
  show "(\<exists>e. handleMessage sm device_state p t0 t1 = Inl e)
            \<longleftrightarrow> \<not> (is_object p \<and> is_object (opt_get p ''0'') \<and> is_object (opt_get p ''1''))"
    by (rule device_update_raises_iff [OF assms(1)])
next
  fix e assume "handleMessage sm ev p t0 t1 = Inl e"
  then show "onMessage sm ev p t0 t1
              = (sm, [(ERROR, JObj [(''code'', JStr ''INVALID_MESSAGE''),
                                    (''message'', JStr (''Failed to process message: '' @ error_to_string e)),
                                    (''originalError'', JUndefined)])])"
    by (rule onMessage_on_raise)
qed

theorem processing_failure_witness:
  "handleMessage new_state_manager nc_state (JStr ''on'') 1000 1000
     = Inl (Error ''Invalid NC state: must be an object'')
   \<and> onMessage new_state_manager nc_state (JStr ''on'') 1000 1000
     = (new_state_manager,
        [(ERROR, JObj [(''code'', JStr ''INVALID_MESSAGE''),
                       (''message'', JStr ''Failed to process message: Error: Invalid NC state: must be an object''),
                       (''originalError'', JUndefined)])])"
proof -
  have dom: "nc_state \<in> set domain_events"
    by (simp add: domain_events_def)
  have raised: "handleMessage new_state_manager nc_state (JStr ''on'') 1000 1000
     = Inl (Error ''Invalid NC state: must be an object'')"
    by (simp add: updateNcState_def has_changed_def new_state_manager_def
        validateAndNormalizeNcState_def normalize_enabled_def)
  from processing_failure [OF cache_wf_new dom, of "JStr ''on''" 1000 1000]
  have "\<forall>e. handleMessage new_state_manager nc_state (JStr ''on'') 1000 1000 = Inl e \<longrightarrow>
            onMessage new_state_manager nc_state (JStr ''on'') 1000 1000
              = (new_state_manager, [(ERROR, JObj [(''code'', JStr ''INVALID_MESSAGE''),
                                    (''message'', JStr (''Failed to process message: '' @ error_to_string e)),
                                    (''originalError'', JUndefined)])])"
    by (elim conjE)
  with raised show ?thesis by (simp del: handleMessage.simps)
qed

text \<open>
  The claim as stated fails for devices: the empty object is an object, and processing it
  raises the device normalizer's second validation error.
\<close>

theorem object_payload_raises_counterexample:
  "is_object (JObj [])
   \<and> handleMessage new_state_manager device_state (JObj []) 1000 1000
       = Inl (Error ''Invalid device state: missing microphone or speaker state'')"
  by (simp add: is_object_def updateDeviceState_def has_changed_def new_state_manager_def
      validateAndNormalizeDeviceState_def)

section \<open>Properties of the Connection Supervisor\<close>

subsection \<open>A cycle in which every port fails\<close>

lemma port_failure_error:
  assumes "outcome \<noteq> Opens"
  shows "\<exists>e. snd (connectToPort cm p outcome) = Inl e"
  using assms by (cases outcome) (simp_all add: connectToPort_def)

lemma port_same_schedule: "same_schedule cm (fst (connectToPort cm p outcome))"
  by (cases outcome) (simp_all add: connectToPort_def clearConnectionTimeout_def same_schedule_def)

lemma port_error_options:
  assumes "options cm = options cm'"
  shows "snd (connectToPort cm p outcome) = snd (connectToPort cm' p' outcome)"
  using assms by (cases outcome) (simp_all add: connectToPort_def connect_timeout_def)

lemma same_schedule_trans: "same_schedule a b \<Longrightarrow> same_schedule b c \<Longrightarrow> same_schedule a c"
  by (simp add: same_schedule_def)

lemma try_ports_step:
  assumes "snd (connectToPort (cm\<lparr>currentPort := Some p\<rparr>) p (env p)) = Inl e"
  shows "try_ports cm (p # ps) env lastError
       = try_ports ((fst (connectToPort (cm\<lparr>currentPort := Some p\<rparr>) p (env p)))\<lparr>socket := None\<rparr>) ps env (Some e)"
  using assms by (cases "connectToPort (cm\<lparr>currentPort := Some p\<rparr>) p (env p)") simp

lemma try_ports_all_fail:
  assumes "list_all (\<lambda>p. env p \<noteq> Opens) ps" "ps \<noteq> []"
  shows "\<exists>cm' e. try_ports cm ps env lastError = (cm', Inr (Some e)) \<and> same_schedule cm cm'
           \<and> socket cm' = None
           \<and> snd (connectToPort cm (last ps) (env (last ps))) = Inl e"
  using assms
proof (induction ps arbitrary: cm lastError)
  case Nil
  then show ?case by simp
next
  case (Cons p ps)
  from Cons.prems have f: "env p \<noteq> Opens" by simp
  let ?cm1 = "cm\<lparr>currentPort := Some p\<rparr>"
  let ?cm2 = "(fst (connectToPort ?cm1 p (env p)))\<lparr>socket := None\<rparr>"
  from port_failure_error [OF f] obtain e where e: "snd (connectToPort ?cm1 p (env p)) = Inl e"
    by blast
  have s: "same_schedule cm ?cm2"
    using port_same_schedule [of ?cm1 p "env p"] by (simp add: same_schedule_def)
  have step: "try_ports cm (p # ps) env lastError = try_ports ?cm2 ps env (Some e)"
    using e by (rule try_ports_step [where cm = cm and p = p and env = env])
  show ?case
  proof (cases "ps = []")
    case True
    have "snd (connectToPort cm p (env p)) = Inl e"
      using e port_error_options [of cm ?cm1 p "env p" p] by simp
    with True step s show ?thesis by simp
  next
    case False
    with Cons.prems have "list_all (\<lambda>p. env p \<noteq> Opens) ps" by simp
    from Cons.IH [OF this False, of ?cm2 "Some e"] obtain cm' e' where
      t: "try_ports ?cm2 ps env (Some e) = (cm', Inr (Some e'))"
      and s': "same_schedule ?cm2 cm'" and n: "socket cm' = None"
      and l: "snd (connectToPort ?cm2 (last ps) (env (last ps))) = Inl e'"
      by blast
    have "options cm = options ?cm2" using s by (simp add: same_schedule_def)
    from port_error_options [OF this, of "last ps" "env (last ps)" "last ps"] l
    have "snd (connectToPort cm (last ps) (env (last ps))) = Inl e'"
      by simp
    with step t same_schedule_trans [OF s s'] n False show ?thesis by simp
  qed
qed


lemma schedule_limit:
  assumes "limit_reached cm"
  shows "scheduleReconnect cm = (cm\<lparr>reconnectTimer := None\<rparr>, [max_attempts_status cm])"
  using assms
  by (auto simp: scheduleReconnect_def limit_reached_def max_attempts_status_def failure_status_def
      clearReconnectTimer_def Let_def split: option.splits)

lemma schedule_arm:
  assumes "\<not> limit_reached cm"
  shows "scheduleReconnect cm
       = (cm\<lparr>reconnectAttempts := Suc (reconnectAttempts cm),
              reconnectTimer := Some (currentReconnectDelay cm),
              currentReconnectDelay := min (currentReconnectDelay cm * (3 / 2)) 30000\<rparr>, [])"
  using assms
  by (auto simp: scheduleReconnect_def limit_reached_def clearReconnectTimer_def Let_def
      RECONNECT_BACKOFF_MULTIPLIER_def MAX_RECONNECT_DELAY_def split: option.splits)

lemma connect_all_fail:
  assumes "\<not> isConnected cm" "\<not> isConnecting cm" "all_ports_fail env" "last_port_error cm env = Inl e"
  shows "\<exists>cm3. same_schedule cm cm3 \<and> socket cm3 = None \<and>
           connect cm env =
             (if autoReconnect (options cm) \<noteq> Some False
              then (fst (scheduleReconnect cm3),
                    [\<lparr>connected = False, connecting = True, port = None, status_error = None\<rparr>,
                     failure_status (fst (aggregate_failure e)) (snd (aggregate_failure e))]
                    @ snd (scheduleReconnect cm3), Inr ())
              else (cm3,
                    [\<lparr>connected = False, connecting = True, port = None, status_error = None\<rparr>,
                     failure_status (fst (aggregate_failure e)) (snd (aggregate_failure e)),
                     failure_status (fst (aggregate_failure e)) (snd (aggregate_failure e))],
                    Inl (KrispSDKError (fst (aggregate_failure e)) (snd (aggregate_failure e)))))"
proof -
  let ?cm1 = "cm\<lparr>isConnecting := True\<rparr>"
  from assms(3) have "list_all (\<lambda>p. env p \<noteq> Opens) DEFAULT_PORTS" "DEFAULT_PORTS \<noteq> []"
    by (simp_all add: all_ports_fail_def DEFAULT_PORTS_def)
  from try_ports_all_fail [OF this, of ?cm1 None] obtain cm2 e' where
    t: "try_ports ?cm1 DEFAULT_PORTS env None = (cm2, Inr (Some e'))"
    and s: "same_schedule ?cm1 cm2" and n: "socket cm2 = None"
    and l: "snd (connectToPort ?cm1 (last DEFAULT_PORTS) (env (last DEFAULT_PORTS))) = Inl e'"
    by blast
  have "snd (connectToPort ?cm1 (last DEFAULT_PORTS) (env (last DEFAULT_PORTS))) = Inl e"
    using assms(4) port_error_options [of ?cm1 cm "last DEFAULT_PORTS" "env (last DEFAULT_PORTS)" "last DEFAULT_PORTS"]
    by (simp add: last_port_error_def)
  with l have e: "e' = e" by simp
  let ?cm3 = "cm2\<lparr>isConnecting := False\<rparr>"
  have agg: "(case Some e of Some (KrispSDKError c m) \<Rightarrow> (c, m)
              | _ \<Rightarrow> (KRISP_NOT_REACHABLE, ''Krisp Desktop is not reachable or API is disabled''))
            = aggregate_failure e"
    by (cases e) simp_all
  have s3: "same_schedule cm ?cm3" using s assms(2) by (simp add: same_schedule_def)
  have o3: "options ?cm3 = options cm" using s by (simp add: same_schedule_def)
  have "connect cm env =
             (if autoReconnect (options cm) \<noteq> Some False
              then (fst (scheduleReconnect ?cm3),
                    [\<lparr>connected = False, connecting = True, port = None, status_error = None\<rparr>,
                     failure_status (fst (aggregate_failure e)) (snd (aggregate_failure e))]
                    @ snd (scheduleReconnect ?cm3), Inr ())
              else (?cm3,
                    [\<lparr>connected = False, connecting = True, port = None, status_error = None\<rparr>,
                     failure_status (fst (aggregate_failure e)) (snd (aggregate_failure e)),
                     failure_status (fst (aggregate_failure e)) (snd (aggregate_failure e))],
                    Inl (KrispSDKError (fst (aggregate_failure e)) (snd (aggregate_failure e)))))"
    using assms(1,2) t e agg o3
    by (simp add: connect_def connect_catch_def Let_def split_beta)
  with s3 n show ?thesis by (intro exI [of _ ?cm3]) simp
qed


lemma same_schedule_limit: "same_schedule a b \<Longrightarrow> limit_reached b = limit_reached a"
  by (auto simp: same_schedule_def limit_reached_def split: option.splits)

lemma same_schedule_status: "same_schedule a b \<Longrightarrow> max_attempts_status b = max_attempts_status a"
  by (simp add: same_schedule_def max_attempts_status_def)

text \<open>
  Claim C3, as amended. When a full \<open>connect()\<close> cycle exhausts all three ports, the
  aggregate failure is the last port's rejection when that is an SDK error and
  \<open>KRISP_NOT_REACHABLE\<close> otherwise, and it is reported in a status update. With
  auto-reconnect disabled, \<open>connect()\<close> rejects with that failure and leaves the reconnect
  timer and the attempt counter alone. With auto-reconnect enabled, \<open>connect()\<close> does not
  reject, and a reconnection attempt is scheduled with the current delay unless the
  configured maximum of attempts has been reached; then no timer is armed and the last
  status update is the max-attempts one. So a cycle never both rejects and schedules.
\<close>

theorem exhausted_ports:
  assumes "\<not> isConnected cm" and "\<not> isConnecting cm"
    and "all_ports_fail env" and "last_port_error cm env = Inl e"
    and "connect cm env = (cm', sts, r)"
  shows "failure_status (fst (aggregate_failure e)) (snd (aggregate_failure e)) \<in> set sts
    \<and> (autoReconnect (options cm) = Some False \<longrightarrow>
          r = Inl (KrispSDKError (fst (aggregate_failure e)) (snd (aggregate_failure e)))
          \<and> reconnectTimer cm' = reconnectTimer cm \<and> reconnectAttempts cm' = reconnectAttempts cm)
    \<and> (autoReconnect (options cm) \<noteq> Some False \<longrightarrow>
          r = Inr ()
          \<and> (if limit_reached cm
              then reconnectTimer cm' = None \<and> last sts = max_attempts_status cm
                   \<and> reconnectAttempts cm' = reconnectAttempts cm
              else reconnectTimer cm' = Some (currentReconnectDelay cm)
                   \<and> reconnectAttempts cm' = Suc (reconnectAttempts cm)))"
proof -
  from connect_all_fail [OF assms(1-4)] obtain cm3 where
    s: "same_schedule cm cm3" and
    c: "connect cm env =
             (if autoReconnect (options cm) \<noteq> Some False
              then (fst (scheduleReconnect cm3),
                    [\<lparr>connected = False, connecting = True, port = None, status_error = None\<rparr>,
                     failure_status (fst (aggregate_failure e)) (snd (aggregate_failure e))]
                    @ snd (scheduleReconnect cm3), Inr ())
              else (cm3,
                    [\<lparr>connected = False, connecting = True, port = None, status_error = None\<rparr>,
                     failure_status (fst (aggregate_failure e)) (snd (aggregate_failure e)),
                     failure_status (fst (aggregate_failure e)) (snd (aggregate_failure e))],
                    Inl (KrispSDKError (fst (aggregate_failure e)) (snd (aggregate_failure e)))))"
    by blast
  show ?thesis
  proof (cases "autoReconnect (options cm) = Some False")
    case True
    with c assms(5) s show ?thesis by (auto simp: same_schedule_def)
  next
    case auto_on: False
    show ?thesis
    proof (cases "limit_reached cm")
      case True
      then have "limit_reached cm3" using same_schedule_limit [OF s] by simp
      from schedule_limit [OF this] c assms(5) auto_on True s same_schedule_status [OF s]
      show ?thesis by (auto simp: same_schedule_def)
    next
      case False
      then have "\<not> limit_reached cm3" using same_schedule_limit [OF s] by simp
      from schedule_arm [OF this] c assms(5) auto_on False s
      show ?thesis by (auto simp: same_schedule_def)
    qed
  qed
qed

lemma refusing_env_error:
  "snd (connectToPort cm p (refusing_env q))
     = Inl (KrispSDKError CONNECTION_REFUSED ''Connection refused: websocket error'')"
  by (simp add: connectToPort_def refusing_env_def)

lemma refusing_env_fails: "all_ports_fail refusing_env"
  by (simp add: all_ports_fail_def refusing_env_def DEFAULT_PORTS_def)


theorem exhausted_ports_witness:
  "snd (snd (connect (new_ConnectionManager manual_options) refusing_env))
     = Inl (KrispSDKError CONNECTION_REFUSED ''Connection refused: websocket error'')
   \<and> reconnectTimer (fst (connect (new_ConnectionManager manual_options) refusing_env)) = None
   \<and> snd (snd (connect (new_ConnectionManager (limited_options 3)) refusing_env)) = Inr ()
   \<and> reconnectTimer (fst (connect (new_ConnectionManager (limited_options 3)) refusing_env)) = Some 1000"
proof -
  let ?a = "new_ConnectionManager manual_options"
  let ?b = "new_ConnectionManager (limited_options 3)"
  have a: "\<not> isConnected ?a" "\<not> isConnecting ?a" "\<not> isConnected ?b" "\<not> isConnecting ?b"
    by (simp_all add: new_ConnectionManager_def isConnected_def)
  have e: "last_port_error ?a refusing_env
             = Inl (KrispSDKError CONNECTION_REFUSED ''Connection refused: websocket error'')"
    "last_port_error ?b refusing_env
             = Inl (KrispSDKError CONNECTION_REFUSED ''Connection refused: websocket error'')"
    by (simp_all add: last_port_error_def refusing_env_error)
  have ca: "connect ?a refusing_env
      = (fst (connect ?a refusing_env), fst (snd (connect ?a refusing_env)), snd (snd (connect ?a refusing_env)))"
    and cb: "connect ?b refusing_env
      = (fst (connect ?b refusing_env), fst (snd (connect ?b refusing_env)), snd (snd (connect ?b refusing_env)))"
    by simp_all
  have oa: "autoReconnect (options ?a) = Some False" "reconnectTimer ?a = None"
    by (simp_all add: new_ConnectionManager_def manual_options_def)
  have ob: "autoReconnect (options ?b) \<noteq> Some False" "\<not> limit_reached ?b" "currentReconnectDelay ?b = 1000"
    by (simp_all add: new_ConnectionManager_def limited_options_def limit_reached_def
        DEFAULT_RECONNECT_DELAY_def)
  from exhausted_ports [OF a(1,2) refusing_env_fails e(1) ca] oa
    exhausted_ports [OF a(3,4) refusing_env_fails e(2) cb] ob
  show ?thesis by simp
qed

text \<open>
  The claim as stated fails once the attempt limit is reached: auto-reconnect is enabled,
  every port refuses, \<open>connect()\<close> does not reject, and no reconnection attempt is
  scheduled.
\<close>

theorem limit_reached_counterexample:
  "autoReconnect (options (new_ConnectionManager (limited_options 0))) \<noteq> Some False
   \<and> all_ports_fail refusing_env
   \<and> snd (snd (connect (new_ConnectionManager (limited_options 0)) refusing_env)) = Inr ()
   \<and> reconnectTimer (fst (connect (new_ConnectionManager (limited_options 0)) refusing_env)) = None"
proof -
  let ?c = "new_ConnectionManager (limited_options 0)"
  have a: "\<not> isConnected ?c" "\<not> isConnecting ?c"
    by (simp_all add: new_ConnectionManager_def isConnected_def)
  have e: "last_port_error ?c refusing_env
             = Inl (KrispSDKError CONNECTION_REFUSED ''Connection refused: websocket error'')"
    by (simp add: last_port_error_def refusing_env_error)
  have o: "autoReconnect (options ?c) \<noteq> Some False" "limit_reached ?c"
    by (simp_all add: new_ConnectionManager_def limited_options_def limit_reached_def)
  from connect_all_fail [OF a refusing_env_fails e] obtain cm3 where
    s: "same_schedule ?c cm3" and
    c: "connect ?c refusing_env =
          (fst (scheduleReconnect cm3),
           [\<lparr>connected = False, connecting = True, port = None, status_error = None\<rparr>,
            failure_status CONNECTION_REFUSED ''Connection refused: websocket error'']
           @ snd (scheduleReconnect cm3), Inr ())"
    using o(1) by auto
  from o(2) have "limit_reached cm3" using same_schedule_limit [OF s] by simp
  from schedule_limit [OF this] c o(1) refusing_env_fails show ?thesis by simp
qed

subsection \<open>The backoff sequence\<close>

lemma last_port_error_exists:
  assumes "all_ports_fail env"
  shows "\<exists>e. last_port_error cm env = Inl e"
proof -
  from assms have "env (last DEFAULT_PORTS) \<noteq> Opens"
    by (simp add: all_ports_fail_def DEFAULT_PORTS_def)
  from port_failure_error [OF this] show ?thesis
    by (simp add: last_port_error_def)
qed

text \<open>One failed cycle of a supervisor that is at rest and below its attempt limit.\<close>

lemma failed_cycle_below_limit:
  assumes "socket cm = None" "\<not> isConnecting cm" "all_ports_fail env"
    "autoReconnect (options cm) \<noteq> Some False" "\<not> limit_reached cm"
  shows "socket (fst (connect cm env)) = None \<and> \<not> isConnecting (fst (connect cm env))
       \<and> options (fst (connect cm env)) = options cm
       \<and> reconnectAttempts (fst (connect cm env)) = Suc (reconnectAttempts cm)
       \<and> reconnectTimer (fst (connect cm env)) = Some (currentReconnectDelay cm)
       \<and> currentReconnectDelay (fst (connect cm env)) = min (currentReconnectDelay cm * (3 / 2)) 30000"
proof -
  from assms(1) have nc: "\<not> isConnected cm" by (simp add: isConnected_def)
  from last_port_error_exists [OF assms(3)] obtain e where e: "last_port_error cm env = Inl e"
    by blast
  from connect_all_fail [OF nc assms(2,3) e] assms(4) obtain cm3 where
    s: "same_schedule cm cm3" and n: "socket cm3 = None" and
    c: "fst (connect cm env) = fst (scheduleReconnect cm3)"
    by auto
  from assms(5) have "\<not> limit_reached cm3" using same_schedule_limit [OF s] by simp
  from schedule_arm [OF this] c s n assms(2) show ?thesis
    by (simp add: same_schedule_def)
qed

lemma below_limit_less: "below_limit opts (Suc k) \<Longrightarrow> below_limit opts k"
  by (simp add: below_limit_def split: option.splits)

lemma after_cycles_below_limit:
  assumes "all_ports_fail env" "autoReconnect opts \<noteq> Some False" "below_limit opts k"
  shows "socket (after_cycles k (new_ConnectionManager opts) env) = None
       \<and> \<not> isConnecting (after_cycles k (new_ConnectionManager opts) env)
       \<and> options (after_cycles k (new_ConnectionManager opts) env) = opts
       \<and> reconnectAttempts (after_cycles k (new_ConnectionManager opts) env) = Suc k
       \<and> reconnectTimer (after_cycles k (new_ConnectionManager opts) env) = Some (spec_delay k)
       \<and> currentReconnectDelay (after_cycles k (new_ConnectionManager opts) env) = spec_delay (Suc k)"
  using assms(3)
proof (induction k)
  case 0
  let ?cm = "new_ConnectionManager opts"
  have a: "socket ?cm = None" and b: "\<not> isConnecting ?cm"
    and c: "autoReconnect (options ?cm) \<noteq> Some False"
    using assms(2) by (simp_all add: new_ConnectionManager_def)
  have d: "\<not> limit_reached ?cm"
    using 0 by (simp add: new_ConnectionManager_def limit_reached_def below_limit_def split: option.splits)
  from failed_cycle_below_limit [OF a b assms(1) c d] show ?case
    by (simp add: new_ConnectionManager_def DEFAULT_RECONNECT_DELAY_def)
next
  case (Suc k)
  let ?cm = "after_cycles k (new_ConnectionManager opts) env"
  let ?cm' = "?cm\<lparr>reconnectTimer := None\<rparr>"
  from Suc.prems have "below_limit opts k" by (rule below_limit_less)
  from Suc.IH [OF this] have ih: "socket ?cm = None" "\<not> isConnecting ?cm" "options ?cm = opts"
       "reconnectAttempts ?cm = Suc k" "reconnectTimer ?cm = Some (spec_delay k)"
       "currentReconnectDelay ?cm = spec_delay (Suc k)"
    by simp_all
  have a: "socket ?cm' = None" and b: "\<not> isConnecting ?cm'"
    and c: "autoReconnect (options ?cm') \<noteq> Some False"
    using ih assms(2) by simp_all
  have d: "\<not> limit_reached ?cm'"
    using Suc.prems ih(3,4) by (simp add: limit_reached_def below_limit_def split: option.splits)
  have e: "after_cycles (Suc k) (new_ConnectionManager opts) env = fst (connect ?cm' env)"
    using ih(5) by (simp add: reconnect_timer_fires_def split_beta)
  from failed_cycle_below_limit [OF a b assms(1) c d] ih show ?case
    unfolding e by simp
qed

lemma try_ports_opens:
  assumes "\<exists>p \<in> set ps. env p = Opens"
  shows "\<exists>cm' p. try_ports cm ps env lastError = (cm', Inl p) \<and> p \<in> set ps \<and> env p = Opens
           \<and> socket cm' = Some True"
  using assms
proof (induction ps arbitrary: cm lastError)
  case Nil
  then show ?case by simp
next
  case (Cons q ps)
  show ?case
  proof (cases "env q = Opens")
    case True
    then show ?thesis by (simp add: connectToPort_def clearConnectionTimeout_def)
  next
    case False
    with Cons.prems have rest: "\<exists>p \<in> set ps. env p = Opens" by auto
    let ?cm1 = "cm\<lparr>currentPort := Some q\<rparr>"
    from port_failure_error [OF False] obtain e where e: "snd (connectToPort ?cm1 q (env q)) = Inl e"
      by blast
    let ?cm2 = "(fst (connectToPort ?cm1 q (env q)))\<lparr>socket := None\<rparr>"
    have step: "try_ports cm (q # ps) env lastError = try_ports ?cm2 ps env (Some e)"
      using e by (rule try_ports_step [where cm = cm and p = q and env = env])
    from Cons.IH [OF rest, of ?cm2 "Some e"] obtain cm' p where
      "try_ports ?cm2 ps env (Some e) = (cm', Inl p)" "p \<in> set ps" "env p = Opens" "socket cm' = Some True"
      by blast
    with step show ?thesis by (intro exI [of _ cm'] exI [of _ p]) (simp del: try_ports.simps)
  qed
qed

lemma connect_success_resets:
  assumes "\<not> isConnected cm" "\<not> isConnecting cm" "\<exists>p \<in> set DEFAULT_PORTS. env p = Opens"
  shows "snd (snd (connect cm env)) = Inr () \<and> isConnected (fst (connect cm env))
       \<and> reconnectAttempts (fst (connect cm env)) = 0
       \<and> currentReconnectDelay (fst (connect cm env)) = 1000"
proof -
  from try_ports_opens [OF assms(3), of "cm\<lparr>isConnecting := True\<rparr>" None] obtain cm' p where
    "try_ports (cm\<lparr>isConnecting := True\<rparr>) DEFAULT_PORTS env None = (cm', Inl p)" "socket cm' = Some True"
    by blast
  with assms(1,2) show ?thesis
    by (simp add: connect_def Let_def isConnected_def DEFAULT_RECONNECT_DELAY_def)
qed

lemma spec_delay_capped: "9 \<le> k \<Longrightarrow> spec_delay k = 30000"
proof (induction k)
  case 0
  then show ?case by simp
next
  case (Suc k)
  show ?case
  proof (cases "k = 8")
    case True
    then show ?thesis by (simp add: eval_nat_numeral)
  next
    case False
    with Suc show ?thesis by simp
  qed
qed

lemma spec_delay_first:
  "spec_delay 0 = 1000" "spec_delay 1 = 1500" "spec_delay 2 = 2250" "spec_delay 3 = 3375"
  "spec_delay 4 = 10125 / 2" "spec_delay 5 = 30375 / 4" "spec_delay 6 = 91125 / 8"
  "spec_delay 7 = 273375 / 16" "spec_delay 8 = 820125 / 32"
  by (simp_all add: eval_nat_numeral)


text \<open>
  Every delay is a multiple of \<open>1/512\<close> with a numerator far below \<open>2^53\<close>, and so is
  every product by 1.5 a multiple of \<open>1/1024\<close>: the double-precision arithmetic of the
  source is exact on these values, and rational numbers model it faithfully.
\<close>

lemma spec_delay_dyadic:
  "spec_delay k = of_nat (if k < 9 then 1000 * 3 ^ k * 2 ^ (9 - k) else 15360000) / 512"
proof (cases "k < 9")
  case False
  then show ?thesis by (simp add: spec_delay_capped)
next
  case True
  then consider "k = 0" | "k = 1" | "k = 2" | "k = 3" | "k = 4" | "k = 5" | "k = 6" | "k = 7" | "k = 8"
    by linarith
  then show ?thesis
    by cases (simp_all add: spec_delay_first)
qed

text \<open>
  Claim C4. With auto-reconnect enabled and every port failing, the reconnect timer armed
  after the \<open>k\<close>-th consecutive failed cycle (no success or disconnect in between, and the
  attempt limit, if one is configured, not yet reached) carries the \<open>k\<close>-th delay of the
  specified sequence: 1000 ms, then each the previous times 1.5 capped at 30000 ms, that
  is 1000, 1500, 2250, ... and 30000 from the tenth on. Any successful connection resets
  the attempt counter to 0 and the current delay to 1000 ms.
\<close>

theorem backoff_sequence:
  assumes "all_ports_fail env" and "autoReconnect opts \<noteq> Some False" and "below_limit opts k"
  shows "reconnectTimer (after_cycles k (new_ConnectionManager opts) env) = Some (spec_delay k)
       \<and> spec_delay 0 = 1000 \<and> spec_delay 1 = 1500 \<and> spec_delay 2 = 2250
       \<and> (9 \<le> k \<longrightarrow> spec_delay k = 30000)
       \<and> (\<forall>cm env'. \<not> isConnected cm \<longrightarrow> \<not> isConnecting cm \<longrightarrow> (\<exists>p \<in> set DEFAULT_PORTS. env' p = Opens) \<longrightarrow>
             snd (snd (connect cm env')) = Inr ()
             \<and> reconnectAttempts (fst (connect cm env')) = 0
             \<and> currentReconnectDelay (fst (connect cm env')) = 1000)"
  using after_cycles_below_limit [OF assms] spec_delay_first(1-3) spec_delay_capped [of k]
    connect_success_resets
  by simp

theorem backoff_sequence_witness:
  "reconnectTimer (after_cycles 2 (new_ConnectionManager default_options) refusing_env) = Some 2250
   \<and> reconnectTimer (after_cycles 12 (new_ConnectionManager default_options) refusing_env) = Some 30000
   \<and> reconnectAttempts (fst (connect backed_off_manager third_port_env)) = 0
   \<and> currentReconnectDelay (fst (connect backed_off_manager third_port_env)) = 1000"
proof -
  have o: "autoReconnect default_options \<noteq> Some False" "below_limit default_options 2"
    "below_limit default_options 12"
    by (simp_all add: default_options_def below_limit_def)
  have b: "\<not> isConnected backed_off_manager" "\<not> isConnecting backed_off_manager"
    "\<exists>p \<in> set DEFAULT_PORTS. third_port_env p = Opens"
    by (simp_all add: backed_off_manager_def new_ConnectionManager_def isConnected_def
        DEFAULT_PORTS_def third_port_env_def)
  from backoff_sequence [OF refusing_env_fails o(1,2)] backoff_sequence [OF refusing_env_fails o(1,3)] b
  show ?thesis by simp
qed

subsection \<open>The attempt limit\<close>

text \<open>A failed cycle of a supervisor that is at rest and has reached its attempt limit.\<close>

lemma failed_cycle_at_limit:
  assumes "socket cm = None" "\<not> isConnecting cm" "all_ports_fail env"
    "autoReconnect (options cm) \<noteq> Some False" "limit_reached cm"
  shows "snd (snd (connect cm env)) = Inr ()
       \<and> last (fst (snd (connect cm env))) = max_attempts_status cm
       \<and> reconnectTimer (fst (connect cm env)) = None
       \<and> reconnectAttempts (fst (connect cm env)) = reconnectAttempts cm
       \<and> currentReconnectDelay (fst (connect cm env)) = currentReconnectDelay cm
       \<and> socket (fst (connect cm env)) = None \<and> \<not> isConnecting (fst (connect cm env))
       \<and> options (fst (connect cm env)) = options cm"
proof -
  from assms(1) have nc: "\<not> isConnected cm" by (simp add: isConnected_def)
  from last_port_error_exists [OF assms(3)] obtain e where e: "last_port_error cm env = Inl e"
    by blast
  from connect_all_fail [OF nc assms(2,3) e] assms(4) obtain cm3 where
    s: "same_schedule cm cm3" and n: "socket cm3 = None" and
    c: "connect cm env = (fst (scheduleReconnect cm3),
          [\<lparr>connected = False, connecting = True, port = None, status_error = None\<rparr>,
           failure_status (fst (aggregate_failure e)) (snd (aggregate_failure e))]
          @ snd (scheduleReconnect cm3), Inr ())"
    by auto
  from assms(5) have "limit_reached cm3" using same_schedule_limit [OF s] by simp
  from schedule_limit [OF this] c s n assms(2) same_schedule_status [OF s] show ?thesis
    by (simp add: same_schedule_def)
qed

lemma after_cycles_at_limit:
  assumes "all_ports_fail env" "autoReconnect opts \<noteq> Some False"
    "maxReconnectAttempts opts = Some m" "0 \<le> m"
  shows "reconnectTimer (after_cycles (nat m) (new_ConnectionManager opts) env) = None
       \<and> reconnectAttempts (after_cycles (nat m) (new_ConnectionManager opts) env) = nat m
       \<and> socket (after_cycles (nat m) (new_ConnectionManager opts) env) = None
       \<and> \<not> isConnecting (after_cycles (nat m) (new_ConnectionManager opts) env)
       \<and> options (after_cycles (nat m) (new_ConnectionManager opts) env) = opts"
proof (cases "nat m")
  case 0
  let ?cm = "new_ConnectionManager opts"
  have a: "socket ?cm = None" and b: "\<not> isConnecting ?cm"
    and c: "autoReconnect (options ?cm) \<noteq> Some False"
    using assms(2) by (simp_all add: new_ConnectionManager_def)
  have d: "limit_reached ?cm"
    using 0 assms(3,4) by (simp add: new_ConnectionManager_def limit_reached_def)
  from failed_cycle_at_limit [OF a b assms(1) c d] 0 show ?thesis
    by (simp add: new_ConnectionManager_def)
next
  case (Suc j)
  let ?cm = "after_cycles j (new_ConnectionManager opts) env"
  let ?cm' = "?cm\<lparr>reconnectTimer := None\<rparr>"
  from Suc assms(3) have "below_limit opts j" by (simp add: below_limit_def)
  from after_cycles_below_limit [OF assms(1,2) this]
  have ih: "socket ?cm = None" "\<not> isConnecting ?cm" "options ?cm = opts"
       "reconnectAttempts ?cm = Suc j" "reconnectTimer ?cm = Some (spec_delay j)"
    by simp_all
  have a: "socket ?cm' = None" and b: "\<not> isConnecting ?cm'"
    and c: "autoReconnect (options ?cm') \<noteq> Some False"
    using ih assms(2) by simp_all
  have d: "limit_reached ?cm'"
    using Suc assms(3) ih(3,4) by (simp add: limit_reached_def)
  have e: "after_cycles (Suc j) (new_ConnectionManager opts) env = fst (connect ?cm' env)"
    using ih(5) by (simp add: reconnect_timer_fires_def split_beta)
  from failed_cycle_at_limit [OF a b assms(1) c d] ih Suc show ?thesis
    unfolding Suc e by simp
qed

text \<open>
  Claim C5, as amended. With a limit \<open>m\<close> on the reconnect attempts and every port
  failing, the supervisor arms a timer after each of the first \<open>m\<close> failed cycles; the
  next failed cycle finds the count of scheduled attempts at the limit, reports the
  terminal max-attempts status and arms no timer, so no further automatic attempt
  occurs (a timer event finds nothing pending). A manual \<open>connect()\<close> that fails again
  reports the same terminal status and leaves counter and timer as they are. The counter
  and the delay are reset by a successful connection and by \<open>disconnect()\<close>, after which
  scheduling resumes with 1000 ms.
\<close>

theorem attempt_limit:
  assumes "all_ports_fail env" and "autoReconnect opts \<noteq> Some False"
    and "maxReconnectAttempts opts = Some m" and "0 \<le> m"
  shows "(let T = after_cycles (nat m) (new_ConnectionManager opts) env in
            reconnectTimer T = None \<and> reconnectAttempts T = nat m
          \<and> reconnect_timer_fires T env = (T, [])
          \<and> snd (snd (connect T env)) = Inr ()
          \<and> last (fst (snd (connect T env))) = max_attempts_status T
          \<and> reconnectTimer (fst (connect T env)) = None
          \<and> reconnectAttempts (fst (connect T env)) = nat m
          \<and> reconnectAttempts (fst (disconnect T)) = 0
          \<and> currentReconnectDelay (fst (disconnect T)) = 1000
          \<and> (\<forall>env'. (\<exists>p \<in> set DEFAULT_PORTS. env' p = Opens) \<longrightarrow>
                reconnectAttempts (fst (connect T env')) = 0
                \<and> currentReconnectDelay (fst (connect T env')) = 1000)
          \<and> (0 < m \<longrightarrow> reconnectTimer (fst (connect (fst (disconnect T)) env)) = Some 1000))
       \<and> (\<forall>cm. socket cm = None \<longrightarrow> \<not> isConnecting cm \<longrightarrow> options cm = opts \<longrightarrow> limit_reached cm \<longrightarrow>
             last (fst (snd (connect cm env))) = max_attempts_status cm
             \<and> reconnectTimer (fst (connect cm env)) = None
             \<and> reconnectAttempts (fst (connect cm env)) = reconnectAttempts cm)"
proof -
  let ?T = "after_cycles (nat m) (new_ConnectionManager opts) env"
  from after_cycles_at_limit [OF assms] have
    T: "reconnectTimer ?T = None" "reconnectAttempts ?T = nat m" "socket ?T = None"
       "\<not> isConnecting ?T" "options ?T = opts"
    by simp_all
  have lim: "limit_reached ?T"
    using T(2,5) assms(3,4) by (simp add: limit_reached_def)
  have auto_on: "autoReconnect (options ?T) \<noteq> Some False"
    using T(5) assms(2) by simp
  note manual = failed_cycle_at_limit [OF T(3,4) assms(1) auto_on lim]
  have fires: "reconnect_timer_fires ?T env = (?T, [])"
    using T(1) by (simp add: reconnect_timer_fires_def)
  have disc: "reconnectAttempts (fst (disconnect ?T)) = 0" "currentReconnectDelay (fst (disconnect ?T)) = 1000"
    by (simp_all add: disconnect_def clearConnectionTimeout_def clearReconnectTimer_def
        DEFAULT_RECONNECT_DELAY_def)
  have nc: "\<not> isConnected ?T" using T(3) by (simp add: isConnected_def)
  have succ: "\<forall>env'. (\<exists>p \<in> set DEFAULT_PORTS. env' p = Opens) \<longrightarrow>
                reconnectAttempts (fst (connect ?T env')) = 0
                \<and> currentReconnectDelay (fst (connect ?T env')) = 1000"
    using connect_success_resets [OF nc T(4)] by blast
  have resume: "0 < m \<longrightarrow> reconnectTimer (fst (connect (fst (disconnect ?T)) env)) = Some 1000"
  proof
    assume m: "0 < m"
    let ?D = "fst (disconnect ?T)"
    have a: "socket ?D = None" and b: "\<not> isConnecting ?D"
      and c: "autoReconnect (options ?D) \<noteq> Some False"
      and d: "\<not> limit_reached ?D" and e: "currentReconnectDelay ?D = 1000"
      using T(5) assms(2,3) m
      by (simp_all add: disconnect_def clearConnectionTimeout_def clearReconnectTimer_def
          limit_reached_def DEFAULT_RECONNECT_DELAY_def)
    from failed_cycle_below_limit [OF a b assms(1) c d] e
    show "reconnectTimer (fst (connect ?D env)) = Some 1000" by simp
  qed
  have general: "\<forall>cm. socket cm = None \<longrightarrow> \<not> isConnecting cm \<longrightarrow> options cm = opts \<longrightarrow> limit_reached cm \<longrightarrow>
             last (fst (snd (connect cm env))) = max_attempts_status cm
             \<and> reconnectTimer (fst (connect cm env)) = None
             \<and> reconnectAttempts (fst (connect cm env)) = reconnectAttempts cm"
    using failed_cycle_at_limit [OF _ _ assms(1)] assms(2) by blast
  from T(1,2) fires manual disc succ resume general show ?thesis
    unfolding Let_def T(2) by blast
qed


lemma limited_options_facts:
  "autoReconnect (limited_options m) \<noteq> Some False" "maxReconnectAttempts (limited_options m) = Some m"
  by (simp_all add: limited_options_def)

theorem attempt_limit_witness:
  "reconnectTimer (after_cycles 2 (new_ConnectionManager (limited_options 2)) refusing_env) = None
   \<and> reconnectAttempts (after_cycles 2 (new_ConnectionManager (limited_options 2)) refusing_env) = 2
   \<and> reconnect_timer_fires (after_cycles 2 (new_ConnectionManager (limited_options 2)) refusing_env) refusing_env
       = (after_cycles 2 (new_ConnectionManager (limited_options 2)) refusing_env, [])
   \<and> reconnectAttempts (fst (connect (after_cycles 2 (new_ConnectionManager (limited_options 2)) refusing_env)
         third_port_env)) = 0
   \<and> reconnectTimer (fst (connect (fst (disconnect
         (after_cycles 2 (new_ConnectionManager (limited_options 2)) refusing_env))) refusing_env)) = Some 1000"
proof -
  have m: "(0::int) \<le> 2" "(0::int) < 2" "nat 2 = 2" by simp_all
  have p: "\<exists>p \<in> set DEFAULT_PORTS. third_port_env p = Opens"
    by (simp add: DEFAULT_PORTS_def third_port_env_def)
  from attempt_limit [OF refusing_env_fails limited_options_facts m(1)] m(2,3) p
  show ?thesis unfolding Let_def by simp
qed

text \<open>
  The claim as stated fails where it says that a new manual \<open>connect()\<close> resets the
  counters: with the limit 1 reached, a manual \<open>connect()\<close> against the same refusing
  ports leaves the attempt counter at 1 and arms no timer.
\<close>

theorem manual_connect_counterexample:
  "reconnectAttempts (after_cycles 1 (new_ConnectionManager (limited_options 1)) refusing_env) = 1
   \<and> reconnectTimer (after_cycles 1 (new_ConnectionManager (limited_options 1)) refusing_env) = None
   \<and> reconnectAttempts (fst (connect (after_cycles 1 (new_ConnectionManager (limited_options 1)) refusing_env)
         refusing_env)) = 1
   \<and> reconnectTimer (fst (connect (after_cycles 1 (new_ConnectionManager (limited_options 1)) refusing_env)
         refusing_env)) = None"
proof -
  let ?T = "after_cycles (nat 1) (new_ConnectionManager (limited_options 1)) refusing_env"
  have m: "(0::int) \<le> 1" by simp
  from after_cycles_at_limit [OF refusing_env_fails limited_options_facts m] have
    T: "reconnectTimer ?T = None" "reconnectAttempts ?T = nat 1" "socket ?T = None"
       "\<not> isConnecting ?T" "options ?T = limited_options 1"
    by simp_all
  have lim: "limit_reached ?T"
    using T(2,5) by (simp add: limit_reached_def limited_options_def)
  have auto_on: "autoReconnect (options ?T) \<noteq> Some False"
    using T(5) by (simp add: limited_options_def)
  from failed_cycle_at_limit [OF T(3,4) refusing_env_fails auto_on lim] T(1,2)
  show ?thesis by simp
qed

section \<open>Properties of the Facade\<close>

subsection \<open>Settlement of a get-state call\<close>

lemma resolve_settled [simp]: "p \<noteq> Pending \<Longrightarrow> resolve v p = p"
  by (cases p) simp_all

lemma reject_settled [simp]: "p \<noteq> Pending \<Longrightarrow> reject e p = p"
  by (cases p) simp_all

lemma torn_down_issued: "torn_down_together issued"
  by (simp add: torn_down_together_def issued_def)

lemma handler_inv: "torn_down_together r \<Longrightarrow> torn_down_together (handler r data)"
  by (auto simp: torn_down_together_def handler_def cleanup_def split: if_splits)

lemma on_timeout_inv: "torn_down_together r \<Longrightarrow> torn_down_together (on_timeout r)"
  by (auto simp: torn_down_together_def on_timeout_def cleanup_def split: if_splits)

lemma on_ack_inv: "torn_down_together r \<Longrightarrow> torn_down_together (on_ack ev sm r response)"
  by (cases "promise r = Pending"; cases "cached ev sm")
     (auto simp: torn_down_together_def on_ack_def cleanup_def Let_def split: if_splits)

lemma call_step_inv:
  "torn_down_together (snd s) \<Longrightarrow> torn_down_together (snd (call_step ev s e))"
  by (cases e) (simp_all add: deliver_def split_beta handler_inv on_timeout_inv on_ack_inv)

lemma call_run_inv:
  "torn_down_together (snd s) \<Longrightarrow> torn_down_together (snd (call_run ev s events))"
  unfolding call_run_def
  by (induction events arbitrary: s) (simp_all add: call_step_inv)

lemma handler_settled: "promise r \<noteq> Pending \<Longrightarrow> promise (handler r data) = promise r"
  by (simp add: handler_def cleanup_def)

lemma on_timeout_settled: "promise r \<noteq> Pending \<Longrightarrow> promise (on_timeout r) = promise r"
  by (simp add: on_timeout_def cleanup_def)

lemma on_ack_settled: "promise r \<noteq> Pending \<Longrightarrow> promise (on_ack ev sm r response) = promise r"
  by (cases "cached ev sm") (simp_all add: on_ack_def cleanup_def Let_def)

lemma call_step_settled:
  "promise (snd s) \<noteq> Pending \<Longrightarrow> promise (snd (call_step ev s e)) = promise (snd s)"
  by (cases e) (simp_all add: deliver_def split_beta handler_settled on_timeout_settled on_ack_settled)

lemma call_run_settled:
  "promise (snd s) \<noteq> Pending \<Longrightarrow> promise (snd (call_run ev s events)) = promise (snd s)"
  unfolding call_run_def
  by (induction events arbitrary: s) (simp_all add: call_step_settled)

lemma on_timeout_settles:
  "torn_down_together r \<Longrightarrow> promise (on_timeout r) \<noteq> Pending"
  by (cases "promise r") (auto simp: torn_down_together_def on_timeout_def cleanup_def split: if_splits)

lemma call_run_append: "call_run ev s (xs @ ys) = call_run ev (call_run ev s xs) ys"
  by (simp add: call_run_def)

lemma timeout_settles:
  assumes "torn_down_together (snd s)" "Timeout \<in> set events"
  shows "promise (snd (call_run ev s events)) \<noteq> Pending"
proof -
  from assms(2) obtain xs ys where ev: "events = xs @ Timeout # ys"
    by (auto simp: in_set_conv_decomp)
  let ?a = "call_run ev s xs"
  have "torn_down_together (snd ?a)" by (rule call_run_inv [OF assms(1)])
  then have "promise (snd (call_step ev ?a Timeout)) \<noteq> Pending"
    by (simp add: on_timeout_settles)
  then have "promise (snd (call_run ev (call_step ev ?a Timeout) ys)) \<noteq> Pending"
    by (simp add: call_run_settled)
  then show ?thesis by (simp add: ev call_run_def)
qed

lemma call_step_rejection:
  "rejection_known ev (snd s) \<Longrightarrow> rejection_known ev (snd (call_step ev s e))"
proof (cases "promise (snd s) = Pending")
  case False
  assume "rejection_known ev (snd s)"
  with call_step_settled [OF False, of ev e] show ?thesis
    by (simp add: rejection_known_def)
next
  case True
  then show ?thesis
    by (cases e; cases "cached ev (fst s)")
       (auto simp: rejection_known_def deliver_def split_beta handler_def on_timeout_def on_ack_def
          cleanup_def Let_def)
qed

lemma call_run_rejection:
  "rejection_known ev (snd s) \<Longrightarrow> rejection_known ev (snd (call_run ev s events))"
  unfolding call_run_def
  by (induction events arbitrary: s) (simp_all add: call_step_rejection)

text \<open>Without a push the cache stays empty and nothing can resolve the call.\<close>

lemma no_push_no_resolve:
  assumes "cached ev (fst s) = None" "\<not> is_resolved (promise (snd s))" "\<forall>e \<in> set events. \<not> is_push e"
  shows "fst (call_run ev s events) = fst s \<and> \<not> is_resolved (promise (snd (call_run ev s events)))"
  using assms unfolding call_run_def
proof (induction events arbitrary: s)
  case Nil
  then show ?case by simp
next
  case (Cons e events)
  have "fst (call_step ev s e) = fst s \<and> \<not> is_resolved (promise (snd (call_step ev s e)))"
  proof (cases e)
    case (Push d t0 t1)
    with Cons.prems show ?thesis by simp
  next
    case (Ack response)
    with Cons.prems(1,2) show ?thesis
      by (cases "promise (snd s)") (simp_all add: on_ack_def Let_def cleanup_def)
  next
    case Timeout
    with Cons.prems(2) show ?thesis
      by (cases "promise (snd s)") (simp_all add: on_timeout_def cleanup_def)
  qed
  with Cons.IH [of "call_step ev s e"] Cons.prems show ?case by simp
qed


lemma issued_by_getState: "getState ev True = Inr (r0, req) \<Longrightarrow> r0 = issued"
  by (auto simp: getState_def issued_def)

lemma ack_then_push:
  assumes "cached ev sm = None" "truthy (opt_get response ''success'')"
  shows "promise (snd (call_run ev (sm, issued) [Ack response])) = Pending
       \<and> promise (snd (call_run ev (sm, issued) [Ack response, Push p t0 t1])) = Resolved p"
  using assms
  by (simp add: call_run_def on_ack_def issued_def Let_def deliver_def split_beta handler_def cleanup_def)

text \<open>
  Claim C6. A get-state call issued while connected, after any sequence of pushes,
  acknowledgement and timer events: its promise is pending, resolved with a state value,
  or rejected with one of the two errors the method builds (\<open>UNKNOWN_ERROR\<close> on a
  failed acknowledgement, \<open>CONNECTION_TIMEOUT\<close> from the 5000 ms timer); once settled it
  never changes; once the timer has fired it is settled; and the listener and the timer
  are in place exactly while the promise is pending, so every settlement path has torn
  both down. With no snapshot cached, no run without a push resolves the call: after a
  successful acknowledgement it is still pending, and the push then resolves it.
\<close>

theorem get_state_settlement:
  assumes "getState ev True = Inr (r0, req)" and "call_run ev (sm, r0) events = (sm', r)"
  shows "torn_down_together r
       \<and> rejection_known ev r
       \<and> (promise r \<noteq> Pending \<longrightarrow> (\<forall>more. promise (snd (call_run ev (sm', r) more)) = promise r))
       \<and> (Timeout \<in> set events \<longrightarrow> promise r \<noteq> Pending)
       \<and> (cached ev sm = None \<longrightarrow> (\<forall>e \<in> set events. \<not> is_push e) \<longrightarrow> \<not> is_resolved (promise r))
       \<and> (cached ev sm = None \<longrightarrow> truthy (opt_get response ''success'') \<longrightarrow>
            promise (snd (call_run ev (sm, r0) [Ack response])) = Pending
            \<and> promise (snd (call_run ev (sm, r0) [Ack response, Push p t0 t1])) = Resolved p)"
proof -
  from assms(1) have r0: "r0 = issued" by (rule issued_by_getState)
  have i: "torn_down_together (snd (sm, r0))" "rejection_known ev (snd (sm, r0))"
    using torn_down_issued by (simp_all add: r0 rejection_known_def issued_def)
  have r: "r = snd (call_run ev (sm, r0) events)" using assms(2) by simp
  have 1: "torn_down_together r" unfolding r by (rule call_run_inv [OF i(1)])
  have 2: "rejection_known ev r" unfolding r by (rule call_run_rejection [OF i(2)])
  have 3: "promise r \<noteq> Pending \<longrightarrow> (\<forall>more. promise (snd (call_run ev (sm', r) more)) = promise r)"
    using call_run_settled [of "(sm', r)" ev] by simp
  have 4: "Timeout \<in> set events \<longrightarrow> promise r \<noteq> Pending"
    unfolding r using timeout_settles [OF i(1)] by blast
  have 5: "cached ev sm = None \<longrightarrow> (\<forall>e \<in> set events. \<not> is_push e) \<longrightarrow> \<not> is_resolved (promise r)"
    unfolding r using no_push_no_resolve [of ev "(sm, r0)" events] by (simp add: r0 issued_def)
  from 1 2 3 4 5 ack_then_push [of ev sm response p t0 t1] show ?thesis
    unfolding r0 by blast
qed

theorem get_state_settlement_witness:
  "promise (snd (call_run device_state (new_state_manager, issued) [Ack ack_success, Push device_push 2000 3000, Timeout]))
     = Resolved device_push
   \<and> timeout (snd (call_run device_state (new_state_manager, issued) [Ack ack_success, Push device_push 2000 3000, Timeout])) = None
   \<and> \<not> listening (snd (call_run device_state (new_state_manager, issued) [Ack ack_success, Push device_push 2000 3000, Timeout]))
   \<and> promise (snd (call_run device_state (new_state_manager, issued) [Ack ack_success, Timeout]))
     = Rejected (KrispSDKError CONNECTION_TIMEOUT ''Request timeout'')"
proof -
  let ?run = "call_run device_state (new_state_manager, issued) [Ack ack_success, Push device_push 2000 3000, Timeout]"
  let ?run2 = "call_run device_state (new_state_manager, issued) [Ack ack_success, Timeout]"
  have g: "getState device_state True = Inr (issued, (''get_device_state'', JObj []))"
    by (simp add: getState_def issued_def)
  have c: "cached device_state new_state_manager = None"
    by (simp add: new_state_manager_def)
  have t: "truthy (opt_get ack_success ''success'')"
    by (simp add: ack_success_def opt_get_def)
  have a: "?run = (fst ?run, snd ?run)" by simp
  have first: "promise (snd (call_run device_state (new_state_manager, issued) [Ack ack_success, Push device_push 2000 3000]))
     = Resolved device_push"
    using get_state_settlement [OF g a, of ack_success device_push 2000 3000] c t by blast
  have "call_run device_state (new_state_manager, issued) ([Ack ack_success, Push device_push 2000 3000] @ [Timeout])
      = call_run device_state (call_run device_state (new_state_manager, issued) [Ack ack_success, Push device_push 2000 3000]) [Timeout]"
    by (rule call_run_append)
  with first have p: "promise (snd ?run) = Resolved device_push"
    using call_run_settled [of "call_run device_state (new_state_manager, issued) [Ack ack_success, Push device_push 2000 3000]"
        device_state "[Timeout]"]
    by simp
  from get_state_settlement [OF g a] have "torn_down_together (snd ?run)" by blast
  with p have td: "timeout (snd ?run) = None \<and> \<not> listening (snd ?run)"
    by (simp add: torn_down_together_def)
  have "promise (snd ?run2) = Rejected (KrispSDKError CONNECTION_TIMEOUT ''Request timeout'')"
    using t by (simp add: call_run_def on_ack_def on_timeout_def issued_def Let_def cleanup_def
        new_state_manager_def)
  with p td show ?thesis by simp
qed


subsection \<open>What a push resolves with\<close>

lemma deliver_resolves:
  assumes "listening r" "promise r = Pending"
  shows "promise (snd (fst (deliver ev (sm, r) data t0 t1))) = Resolved data"
  using assms by (simp add: deliver_def split_beta handler_def cleanup_def)

lemma deliver_cache:
  "fst (fst (deliver ev (sm, r) data t0 t1)) = fst (onMessage sm ev data t0 t1)"
  by (simp add: deliver_def split_beta)

lemma onMessage_stores:
  assumes "ev \<in> set domain_events" "handleMessage sm ev data t0 t1 = Inr (sm1, out)"
  shows "\<exists>s. normalize ev data t0 t1 = Inr s \<and> cached ev (fst (onMessage sm ev data t0 t1)) = Some s"
  using update_replaces [OF assms] assms(2) by (auto simp: onMessage_def)

lemma bare_payloads_normalized:
  "fst (onMessage new_state_manager nc_state (JObj []) t0 t1)
     = new_state_manager\<lparr>ncState := Some (enabled_snapshot False (JNum t0) False (JNum t1))\<rparr>"
  "fst (onMessage new_state_manager device_state bare_device_payload t0 t1)
     = new_state_manager\<lparr>deviceState := Some (device_snapshot JNull (JNum t0) JNull (JNum t1))\<rparr>"
  by (simp_all add: onMessage_def updateNcState_def updateDeviceState_def has_changed_def
      new_state_manager_def validateAndNormalizeNcState_def normalize_enabled_def
      validateAndNormalizeDeviceState_def bare_device_payload_def enabled_snapshot_def
      device_snapshot_def opt_get_def Boolean_def js_or_def)

text \<open>
  Claim C10. The one-shot listener of a pending get-state call sits on the raw socket
  event, so a push resolves the promise with the payload as the transport delivered it,
  while the State Cache stores the normalized snapshot of that payload. The two can
  differ: for the noise-cancellation payload \<open>{}\<close> the promise resolves with \<open>{}\<close> and the
  cache holds both flags \<open>false\<close> with clock timestamps; for a device payload with two
  empty entries the cache holds \<open>physicalDeviceInfo: null\<close> and clock timestamps, which
  the resolved value lacks.
\<close>

theorem push_resolves_with_raw_payload:
  assumes "listening r" and "promise r = Pending"
  shows "promise (snd (fst (deliver ev (sm, r) data t0 t1))) = Resolved data
       \<and> (\<forall>sm1 out. ev \<in> set domain_events \<longrightarrow> handleMessage sm ev data t0 t1 = Inr (sm1, out) \<longrightarrow>
            (\<exists>s. normalize ev data t0 t1 = Inr s
                \<and> cached ev (fst (fst (deliver ev (sm, r) data t0 t1))) = Some s))
       \<and> promise (snd (fst (deliver nc_state (new_state_manager, r) (JObj []) t0 t1))) = Resolved (JObj [])
       \<and> ncState (fst (fst (deliver nc_state (new_state_manager, r) (JObj []) t0 t1)))
            = Some (enabled_snapshot False (JNum t0) False (JNum t1))
       \<and> promise (snd (fst (deliver device_state (new_state_manager, r) bare_device_payload t0 t1)))
            = Resolved bare_device_payload
       \<and> deviceState (fst (fst (deliver device_state (new_state_manager, r) bare_device_payload t0 t1)))
            = Some (device_snapshot JNull (JNum t0) JNull (JNum t1))"
  using deliver_resolves [OF assms] onMessage_stores [of ev sm data t0 t1]
  by (simp add: deliver_cache bare_payloads_normalized)

theorem push_resolves_with_raw_payload_witness:
  "promise (snd (fst (deliver nc_state (new_state_manager, issued) (JObj []) 2000 3000))) = Resolved (JObj [])
   \<and> ncState (fst (fst (deliver nc_state (new_state_manager, issued) (JObj []) 2000 3000)))
        = Some (enabled_snapshot False (JNum 2000) False (JNum 3000))"
proof -
  have a: "listening issued" "promise issued = Pending"
    by (simp_all add: issued_def)
  from push_resolves_with_raw_payload [OF a, of nc_state new_state_manager "JObj []" 2000 3000]
  show ?thesis by blast
qed

subsection \<open>Subscribing\<close>

lemma set_add_topic: "set (add_topic t ts) = insert t (set ts)"
  by (auto simp: add_topic_def)

lemma set_confirm_topics:
  "set (confirm_topics topics confirmed subscribed)
     = set subscribed \<union> {t \<in> set topics. JStr t \<in> set confirmed}"
  by (induction topics confirmed subscribed rule: confirm_topics.induct)
     (auto simp: set_add_topic)

lemma subscribe_issued_request: "subscribe topics True = Inr (r0, req) \<Longrightarrow> r0 = issued_subscribe"
  by (auto simp: subscribe_def issued_subscribe_def)

text \<open>Once the acknowledgement has run, no event changes anything.\<close>

lemma subscribe_step_done:
  assumes "\<not> awaiting_ack (snd s)" "timeout (snd s) = None"
  shows "subscribe_step topics s e = s"
  using assms by (cases e) (simp_all add: subscribe_ack_def subscribe_timeout_def)

lemma subscribe_run_done:
  assumes "\<not> awaiting_ack (snd s)" "timeout (snd s) = None"
  shows "subscribe_run topics s events = s"
  using assms unfolding subscribe_run_def
  by (induction events) (simp_all add: subscribe_step_done)

lemma subscribe_run_Cons:
  "subscribe_run topics s (e # events) = subscribe_run topics (subscribe_step topics s e) events"
  by (simp add: subscribe_run_def)

lemma subscribe_ack_done:
  assumes "awaiting_ack r"
  shows "\<not> awaiting_ack (snd (fst (subscribe_ack topics (f, r) response)))
       \<and> timeout (snd (fst (subscribe_ack topics (f, r) response))) = None"
  using assms by (simp add: subscribe_ack_def Let_def split: jsval.splits)

text \<open>The acknowledgement callback, whatever the promise has become by then.\<close>

lemma subscribe_ack_adds:
  assumes "awaiting_ack r" "truthy (opt_get response ''success'')"
    "js_or (opt_get response ''subscribed'') (JArr (map JStr topics)) = JArr confirmed"
  shows "set (subscribedTopics (fst (fst (subscribe_ack topics (f, r) response))))
           = set (subscribedTopics f) \<union> {t \<in> set topics. JStr t \<in> set confirmed}
       \<and> promise (snd (fst (subscribe_ack topics (f, r) response))) = resolve JUndefined (promise r)"
  using assms by (simp add: subscribe_ack_def Let_def set_confirm_topics)

lemma subscribe_ack_refused:
  assumes "awaiting_ack r" "\<not> truthy (opt_get response ''success'')"
  shows "fst (fst (subscribe_ack topics (f, r) response)) = f
       \<and> promise (snd (fst (subscribe_ack topics (f, r) response)))
           = reject (KrispSDKError UNKNOWN_ERROR ''Failed to subscribe'') (promise r)"
  using assms by (simp add: subscribe_ack_def Let_def)

lemma timer_on_issued:
  "subscribe_timeout (f, issued_subscribe)
     = (f, issued_subscribe\<lparr>timeout := None,
              promise := Rejected (KrispSDKError CONNECTION_TIMEOUT ''Request timeout'')\<rparr>)"
  by (simp add: subscribe_timeout_def issued_subscribe_def)

text \<open>After the timer: the call stays rejected, and only an acknowledgement can touch the set.\<close>

lemma timed_out_step:
  assumes "promise (snd s) = Rejected (KrispSDKError CONNECTION_TIMEOUT ''Request timeout'')"
    "timeout (snd s) = None"
  shows "promise (snd (subscribe_step topics s e)) = Rejected (KrispSDKError CONNECTION_TIMEOUT ''Request timeout'')
       \<and> timeout (snd (subscribe_step topics s e)) = None
       \<and> (e = TimerEvent \<longrightarrow> subscribe_step topics s e = s)"
  using assms
  by (cases e) (auto simp: subscribe_ack_def subscribe_timeout_def Let_def split: jsval.splits)

lemma timed_out_run:
  assumes "promise (snd s) = Rejected (KrispSDKError CONNECTION_TIMEOUT ''Request timeout'')"
    "timeout (snd s) = None"
  shows "promise (snd (subscribe_run topics s events)) = Rejected (KrispSDKError CONNECTION_TIMEOUT ''Request timeout'')
       \<and> ((\<forall>e \<in> set events. e = TimerEvent) \<longrightarrow> subscribe_run topics s events = s)"
  using assms
proof (induction events arbitrary: s)
  case Nil
  then show ?case by (simp add: subscribe_run_def)
next
  case (Cons e events)
  from timed_out_step [OF Cons.prems, of topics e] Cons.IH [of "subscribe_step topics s e"]
  show ?case by (auto simp: subscribe_run_Cons)
qed


lemma subscribe_run_append:
  "subscribe_run topics s (xs @ ys) = subscribe_run topics (subscribe_run topics s xs) ys"
  by (simp add: subscribe_run_def)

text \<open>A run that begins with the acknowledgement: the callback's result stands.\<close>

lemma ack_first:
  assumes "awaiting_ack r"
  shows "subscribe_run topics (f, r) (AckEvent response # rest) = fst (subscribe_ack topics (f, r) response)"
proof -
  let ?s = "fst (subscribe_ack topics (f, r) response)"
  from subscribe_ack_done [OF assms, of topics f response]
  have "subscribe_run topics ?s rest = ?s" by (intro subscribe_run_done) simp_all
  then show ?thesis by (simp add: subscribe_run_Cons)
qed

text \<open>A run in which the timer fires, perhaps again and again, before the acknowledgement.\<close>

lemma timer_then_ack:
  assumes "\<forall>e \<in> set pre. e = TimerEvent"
  shows "subscribe_run topics (f, issued_subscribe) (TimerEvent # pre @ AckEvent response # rest)
       = fst (subscribe_ack topics
               (f, issued_subscribe\<lparr>timeout := None,
                      promise := Rejected (KrispSDKError CONNECTION_TIMEOUT ''Request timeout'')\<rparr>)
               response)"
proof -
  let ?r = "issued_subscribe\<lparr>timeout := None,
              promise := Rejected (KrispSDKError CONNECTION_TIMEOUT ''Request timeout'')\<rparr>"
  have a: "awaiting_ack ?r" by (simp add: issued_subscribe_def)
  have "subscribe_run topics (f, ?r) pre = (f, ?r)"
    using timed_out_run [of "(f, ?r)" topics pre] assms by simp
  then have "subscribe_run topics (f, issued_subscribe) (TimerEvent # pre @ AckEvent response # rest)
           = subscribe_run topics (f, ?r) (AckEvent response # rest)"
    by (simp add: subscribe_run_Cons subscribe_run_append timer_on_issued)
  with ack_first [OF a] show ?thesis by simp
qed

text \<open>
  Claim C7, as amended. For a \<open>subscribe(topics)\<close> call issued while connected, over the
  runs of acknowledgement and timer events. When the acknowledgement comes first and
  reports success, the topics added to the subscription set are exactly those that are
  both requested and in the confirmed list (the acknowledgement's \<open>subscribed\<close> list, or
  all requested topics when the server leaves it out), and the call resolves; when it
  reports failure, the call rejects with \<open>UNKNOWN_ERROR\<close> and the Facade is unchanged.
  When the timer fires first, the call rejects with \<open>CONNECTION_TIMEOUT\<close> and stays
  rejected, and the timer leaves the Facade unchanged; but the timer does not disarm the
  acknowledgement callback: a failed acknowledgement that arrives afterwards changes
  nothing, while a successful one still adds the requested and confirmed topics.
\<close>

theorem subscribe_settles_and_updates:
  assumes "subscribe topics True = Inr (r0, req)"
  shows "(truthy (opt_get response ''success'') \<longrightarrow>
           js_or (opt_get response ''subscribed'') (JArr (map JStr topics)) = JArr confirmed \<longrightarrow>
             set (subscribedTopics (fst (subscribe_run topics (f, r0) (AckEvent response # rest))))
               = set (subscribedTopics f) \<union> {t \<in> set topics. JStr t \<in> set confirmed}
             \<and> promise (snd (subscribe_run topics (f, r0) (AckEvent response # rest))) = Resolved JUndefined)
       \<and> (truthy (opt_get response ''success'') \<longrightarrow> \<not> truthy (opt_get response ''subscribed'') \<longrightarrow>
             set (subscribedTopics (fst (subscribe_run topics (f, r0) (AckEvent response # rest))))
               = set (subscribedTopics f) \<union> set topics
             \<and> promise (snd (subscribe_run topics (f, r0) (AckEvent response # rest))) = Resolved JUndefined)
       \<and> (\<not> truthy (opt_get response ''success'') \<longrightarrow>
             fst (subscribe_run topics (f, r0) (AckEvent response # rest)) = f
             \<and> promise (snd (subscribe_run topics (f, r0) (AckEvent response # rest)))
                 = Rejected (KrispSDKError UNKNOWN_ERROR ''Failed to subscribe''))
       \<and> promise (snd (subscribe_run topics (f, r0) (TimerEvent # rest)))
            = Rejected (KrispSDKError CONNECTION_TIMEOUT ''Request timeout'')
       \<and> ((\<forall>e \<in> set rest. e = TimerEvent) \<longrightarrow> fst (subscribe_run topics (f, r0) (TimerEvent # rest)) = f)
       \<and> ((\<forall>e \<in> set pre. e = TimerEvent) \<longrightarrow> \<not> truthy (opt_get response ''success'') \<longrightarrow>
             fst (subscribe_run topics (f, r0) (TimerEvent # pre @ AckEvent response # rest)) = f)
       \<and> ((\<forall>e \<in> set pre. e = TimerEvent) \<longrightarrow> truthy (opt_get response ''success'') \<longrightarrow>
           js_or (opt_get response ''subscribed'') (JArr (map JStr topics)) = JArr confirmed \<longrightarrow>
             set (subscribedTopics (fst (subscribe_run topics (f, r0) (TimerEvent # pre @ AckEvent response # rest))))
               = set (subscribedTopics f) \<union> {t \<in> set topics. JStr t \<in> set confirmed})"
proof -
  from subscribe_issued_request [OF assms] have r0: "r0 = issued_subscribe" .
  let ?late = "issued_subscribe\<lparr>timeout := None,
              promise := Rejected (KrispSDKError CONNECTION_TIMEOUT ''Request timeout'')\<rparr>"
  have a: "awaiting_ack issued_subscribe" "promise issued_subscribe = Pending" "awaiting_ack ?late"
    by (simp_all add: issued_subscribe_def)
  have omitted: "\<not> truthy (opt_get response ''subscribed'') \<Longrightarrow>
      js_or (opt_get response ''subscribed'') (JArr (map JStr topics)) = JArr (map JStr topics)"
    by (simp add: js_or_def)
  have all: "{t \<in> set topics. JStr t \<in> set (map JStr topics)} = set topics"
    by auto
  have 1: "truthy (opt_get response ''success'') \<longrightarrow>
           js_or (opt_get response ''subscribed'') (JArr (map JStr topics)) = JArr confirmed \<longrightarrow>
             set (subscribedTopics (fst (subscribe_run topics (f, r0) (AckEvent response # rest))))
               = set (subscribedTopics f) \<union> {t \<in> set topics. JStr t \<in> set confirmed}
             \<and> promise (snd (subscribe_run topics (f, r0) (AckEvent response # rest))) = Resolved JUndefined"
    for confirmed
    unfolding r0 ack_first [OF a(1)]
    using subscribe_ack_adds [OF a(1), of response topics confirmed f] a(2) by simp
  have 2: "truthy (opt_get response ''success'') \<longrightarrow> \<not> truthy (opt_get response ''subscribed'') \<longrightarrow>
             set (subscribedTopics (fst (subscribe_run topics (f, r0) (AckEvent response # rest))))
               = set (subscribedTopics f) \<union> set topics
             \<and> promise (snd (subscribe_run topics (f, r0) (AckEvent response # rest))) = Resolved JUndefined"
    using 1 [of "map JStr topics"] omitted all by (simp del: set_map)
  have 3: "\<not> truthy (opt_get response ''success'') \<longrightarrow>
             fst (subscribe_run topics (f, r0) (AckEvent response # rest)) = f
             \<and> promise (snd (subscribe_run topics (f, r0) (AckEvent response # rest)))
                 = Rejected (KrispSDKError UNKNOWN_ERROR ''Failed to subscribe'')"
    unfolding r0 ack_first [OF a(1)]
    using subscribe_ack_refused [OF a(1), of response topics f] a(2) by simp
  have t: "subscribe_run topics (f, r0) (TimerEvent # rest) = subscribe_run topics (f, ?late) rest"
    by (simp add: r0 subscribe_run_Cons timer_on_issued)
  have 4: "promise (snd (subscribe_run topics (f, r0) (TimerEvent # rest)))
            = Rejected (KrispSDKError CONNECTION_TIMEOUT ''Request timeout'')"
    unfolding t using timed_out_run [of "(f, ?late)" topics rest] by simp
  have 5: "(\<forall>e \<in> set rest. e = TimerEvent) \<longrightarrow> fst (subscribe_run topics (f, r0) (TimerEvent # rest)) = f"
    unfolding t using timed_out_run [of "(f, ?late)" topics rest] by simp
  have 6: "(\<forall>e \<in> set pre. e = TimerEvent) \<longrightarrow> \<not> truthy (opt_get response ''success'') \<longrightarrow>
             fst (subscribe_run topics (f, r0) (TimerEvent # pre @ AckEvent response # rest)) = f"
    unfolding r0 using timer_then_ack [of pre topics f response rest]
      subscribe_ack_refused [OF a(3), of response topics f] by simp
  have 7: "(\<forall>e \<in> set pre. e = TimerEvent) \<longrightarrow> truthy (opt_get response ''success'') \<longrightarrow>
           js_or (opt_get response ''subscribed'') (JArr (map JStr topics)) = JArr confirmed \<longrightarrow>
             set (subscribedTopics (fst (subscribe_run topics (f, r0) (TimerEvent # pre @ AckEvent response # rest))))
               = set (subscribedTopics f) \<union> {t \<in> set topics. JStr t \<in> set confirmed}"
    unfolding r0 using timer_then_ack [of pre topics f response rest]
      subscribe_ack_adds [OF a(3), of response topics confirmed f] by simp
  from 1 [of confirmed] 2 3 4 5 6 7 show ?thesis by blast
qed

theorem subscribe_settles_and_updates_witness:
  "set (subscribedTopics (fst (subscribe_run [''devices'', ''ac''] (fresh_facade, issued_subscribe)
          [AckEvent ack_devices_only, TimerEvent]))) = {''devices''}
   \<and> promise (snd (subscribe_run [''devices'', ''ac''] (fresh_facade, issued_subscribe)
          [AckEvent ack_devices_only, TimerEvent])) = Resolved JUndefined
   \<and> fst (subscribe_run [''devices'', ''ac''] (fresh_facade, issued_subscribe) [TimerEvent, TimerEvent])
       = fresh_facade
   \<and> promise (snd (subscribe_run [''devices'', ''ac''] (fresh_facade, issued_subscribe) [TimerEvent, TimerEvent]))
       = Rejected (KrispSDKError CONNECTION_TIMEOUT ''Request timeout'')"
proof -
  have s: "subscribe [''devices'', ''ac''] True = Inr (issued_subscribe, subscribe_request [''devices'', ''ac''])"
    by (simp add: subscribe_def subscribe_request_def issued_subscribe_def)
  have a: "truthy (opt_get ack_devices_only ''success'')"
    by (simp add: ack_devices_only_def opt_get_def)
  have b: "js_or (opt_get ack_devices_only ''subscribed'') (JArr (map JStr [''devices'', ''ac'']))
            = JArr [JStr ''devices'']"
    by (simp add: ack_devices_only_def opt_get_def js_or_def)
  have c: "set (subscribedTopics fresh_facade) \<union> {t \<in> set [''devices'', ''ac'']. JStr t \<in> set [JStr ''devices'']}
            = {''devices''}"
    by (auto simp: fresh_facade_def)
  have d: "\<forall>e \<in> set [TimerEvent]. e = TimerEvent" by simp
  from subscribe_settles_and_updates [OF s, of ack_devices_only "[JStr ''devices'']" fresh_facade "[TimerEvent]" "[]"]
    a b d
  have "set (subscribedTopics (fst (subscribe_run [''devices'', ''ac''] (fresh_facade, issued_subscribe)
          [AckEvent ack_devices_only, TimerEvent])))
          = set (subscribedTopics fresh_facade) \<union> {t \<in> set [''devices'', ''ac'']. JStr t \<in> set [JStr ''devices'']}"
    and "promise (snd (subscribe_run [''devices'', ''ac''] (fresh_facade, issued_subscribe)
          [AckEvent ack_devices_only, TimerEvent])) = Resolved JUndefined"
    and "fst (subscribe_run [''devices'', ''ac''] (fresh_facade, issued_subscribe) [TimerEvent, TimerEvent])
       = fresh_facade"
    and "promise (snd (subscribe_run [''devices'', ''ac''] (fresh_facade, issued_subscribe) [TimerEvent, TimerEvent]))
       = Rejected (KrispSDKError CONNECTION_TIMEOUT ''Request timeout'')"
    by blast+
  then show ?thesis unfolding c by simp
qed

text \<open>
  The claim as stated fails where it says that on timeout the subscription set is
  unchanged: the call for \<open>devices\<close> and \<open>ac\<close> times out, the acknowledgement
  \<open>{success: true, subscribed: ['devices']}\<close> arrives afterwards, and the set, empty
  before, holds \<open>devices\<close> while the call stays rejected.
\<close>

theorem late_acknowledgement_counterexample:
  "subscribedTopics fresh_facade = []
   \<and> promise (snd (subscribe_run [''devices'', ''ac''] (fresh_facade, issued_subscribe)
          [TimerEvent, AckEvent ack_devices_only]))
       = Rejected (KrispSDKError CONNECTION_TIMEOUT ''Request timeout'')
   \<and> subscribedTopics (fst (subscribe_run [''devices'', ''ac''] (fresh_facade, issued_subscribe)
          [TimerEvent, AckEvent ack_devices_only])) = [''devices'']"
  by (simp add: subscribe_run_def subscribe_timeout_def subscribe_ack_def issued_subscribe_def
      fresh_facade_def ack_devices_only_def opt_get_def js_or_def Let_def add_topic_def)

subsection \<open>Recovery after a reconnection\<close>

lemma connection_lost:
  assumes "wasConnected f" "\<not> connected st"
  shows "emitConnectionChange f st = (f\<lparr>wasConnected := False, isReconnecting := True\<rparr>, False)"
  using assms by (simp add: emitConnectionChange_def)

lemma still_down:
  assumes "\<not> wasConnected f" "\<not> connected st"
  shows "emitConnectionChange f st = (f, False)"
  using assms by (simp add: emitConnectionChange_def)

lemma still_down_all:
  assumes "\<not> wasConnected f" "\<forall>st \<in> set sts. \<not> connected st"
  shows "status_updates f sts = f"
  using assms unfolding status_updates_def
  by (induction sts) (simp_all add: still_down)

lemma connection_back:
  assumes "\<not> wasConnected f" "isReconnecting f" "connected st"
  shows "emitConnectionChange f st = (f\<lparr>isReconnecting := False, wasConnected := True\<rparr>, True)"
  using assms by (simp add: emitConnectionChange_def)

lemma lost_then_back:
  assumes "wasConnected f" "\<not> connected down" "\<forall>st \<in> set between. \<not> connected st" "connected up"
  shows "emitConnectionChange (status_updates f (down # between)) up
           = (f\<lparr>isReconnecting := False, wasConnected := True\<rparr>, True)"
proof -
  let ?f1 = "f\<lparr>wasConnected := False, isReconnecting := True\<rparr>"
  have "status_updates f (down # between) = status_updates ?f1 between"
    using connection_lost [OF assms(1,2)] by (simp add: status_updates_def)
  also have "\<dots> = ?f1"
    using assms(3) by (intro still_down_all) simp_all
  finally show ?thesis
    using connection_back [of ?f1 up] assms(4) by simp
qed

lemma four_requests:
  "fetchInitialStates True = map (\<lambda>ev. (get_request ev, JObj [])) domain_events"
  by (simp add: fetchInitialStates_def getState_def domain_events_def)

lemma recovery_sent:
  assumes "poll (polls env) 10 0" "connected_later env"
  shows "fst (snd (handleReconnection f env))
           = map (\<lambda>ev. (get_request ev, JObj [])) domain_events
             @ (if autoSubscribe (sdk_options f) = Some False then []
                else [subscribe_request (recovery_topics f)])"
proof (cases "autoSubscribe (sdk_options f) = Some False")
  case True
  with assms show ?thesis
    by (simp add: handleReconnection_def Let_def four_requests)
next
  case False
  let ?topics = "recovery_topics f"
  let ?r = "\<lparr>promise = Pending, timeout = Some 5000, listening = False, awaiting_ack = True\<rparr>"
  have s: "subscribe ?topics True = Inr (?r, subscribe_request ?topics)"
    by (simp add: subscribe_def subscribe_request_def)
  show ?thesis
  proof (cases "subscribe_result env")
    case TimerFires
    with assms False s show ?thesis
      by (simp add: handleReconnection_def Let_def four_requests recovery_topics_def)
  next
    case (AckArrives response)
    obtain f' r' e where "subscribe_ack ?topics (f, ?r) response = ((f', r'), e)"
      by (metis surj_pair)
    with assms False s AckArrives show ?thesis
      by (cases e) (simp_all add: handleReconnection_def Let_def four_requests recovery_topics_def)
  qed
qed

lemma subscribe_ack_flags:
  "wasConnected (fst (fst (subscribe_ack topics (f, r) response))) = wasConnected f
   \<and> isReconnecting (fst (fst (subscribe_ack topics (f, r) response))) = isReconnecting f
   \<and> sdk_options (fst (fst (subscribe_ack topics (f, r) response))) = sdk_options f"
  by (simp add: subscribe_ack_def Let_def split: jsval.splits)

lemma recovery_flags:
  "wasConnected (fst (handleReconnection f env)) = wasConnected f
   \<and> isReconnecting (fst (handleReconnection f env)) = isReconnecting f
   \<and> sdk_options (fst (handleReconnection f env)) = sdk_options f"
proof -
  have *: "\<And>topics r response.
     (case subscribe_ack topics (f, r) response of
        ((f', r'), None) \<Rightarrow> (f', x, Completed) | ((f', r'), Some e) \<Rightarrow> (f', x, Suspended))
     = (fst (fst (subscribe_ack topics (f, r) response)), x,
        if snd (subscribe_ack topics (f, r) response) = None then Completed else Suspended)" for x :: "request list"
    by (simp split: prod.splits option.splits)
  show ?thesis
    using subscribe_ack_flags
    by (simp add: handleReconnection_def Let_def subscribe_def subscribe_timeout_def *
        split: subscribe_outcome.splits)
qed


text \<open>
  What the recovery does in the code. In a connected session, a status update that
  reports the connection lost, further updates that do not report it connected, and then
  one that does, start \<open>handleReconnection\<close> and leave the subscription set as it was.
  When the connection reads as connected, the four get-state requests are re-issued;
  the subscribe request for the topic set held before the disconnection (or, when that
  set is empty, for the configured auto-subscribe topics) follows only if \<open>autoSubscribe\<close>
  is not switched off. Whatever the recovery meets, it does not throw and it leaves the
  Facade's connection flags as the reconnection set them.
\<close>

lemma recovery_sequence:
  assumes "wasConnected f" and "\<not> connected down"
    and "\<forall>st \<in> set between. \<not> connected st" and "connected up"
  shows "snd (emitConnectionChange (status_updates f (down # between)) up)
       \<and> subscribedTopics (fst (emitConnectionChange (status_updates f (down # between)) up))
            = subscribedTopics f
       \<and> (\<forall>env. poll (polls env) 10 0 \<longrightarrow> connected_later env \<longrightarrow>
            fst (snd (handleReconnection (fst (emitConnectionChange (status_updates f (down # between)) up)) env))
              = map (\<lambda>ev. (get_request ev, JObj [])) domain_events
                @ (if autoSubscribe (sdk_options f) = Some False then []
                   else [subscribe_request (recovery_topics f)]))
       \<and> recovery_topics f
            = (if subscribedTopics f \<noteq> [] then subscribedTopics f
               else case autoSubscribeTopics (sdk_options f) of Some ts \<Rightarrow> ts | None \<Rightarrow> default_topics)
       \<and> (\<forall>env. wasConnected (fst (handleReconnection
                     (fst (emitConnectionChange (status_updates f (down # between)) up)) env))
               \<and> \<not> isReconnecting (fst (handleReconnection
                     (fst (emitConnectionChange (status_updates f (down # between)) up)) env)))"
proof -
  let ?g = "f\<lparr>isReconnecting := False, wasConnected := True\<rparr>"
  have e: "emitConnectionChange (status_updates f (down # between)) up = (?g, True)"
    by (rule lost_then_back [OF assms])
  have t: "recovery_topics ?g = recovery_topics f"
    by (simp add: recovery_topics_def)
  show ?thesis
    unfolding e using recovery_sent [of _ ?g] recovery_flags [of ?g]
    by (simp add: t) (simp add: recovery_topics_def)
qed

text \<open>
  With \<open>autoSubscribe\<close> left at its default, the topics held before the loss are
  subscribed again.
\<close>

lemma recovery_sequence_example:
  "snd (emitConnectionChange (status_updates auto_facade [status_down, status_connecting]) status_up)
   \<and> fst (snd (handleReconnection
        (fst (emitConnectionChange (status_updates auto_facade [status_down, status_connecting]) status_up))
        steady_env))
      = [(''get_device_state'', JObj []), (''get_nc_state'', JObj []), (''get_ac_state'', JObj []),
         (''get_in_call_state'', JObj []),
         (''subscribe'', JObj [(''topics'', JArr [JStr ''devices'', JStr ''nc''])])]"
proof -
  have a: "wasConnected auto_facade" "\<not> connected status_down"
    "\<forall>st \<in> set [status_connecting]. \<not> connected st" "connected status_up"
    by (simp_all add: auto_facade_def status_down_def status_connecting_def status_up_def
        failure_status_def)
  have b: "poll (polls steady_env) 10 0" "connected_later steady_env"
    by (simp_all add: steady_env_def eval_nat_numeral)
  have c: "autoSubscribe (sdk_options auto_facade) \<noteq> Some False"
    "recovery_topics auto_facade = [''devices'', ''nc'']"
    by (simp_all add: auto_facade_def recovery_topics_def)
  from recovery_sequence [OF a] b c show ?thesis
    by (simp add: domain_events_def subscribe_request_def)
qed

text \<open>
  Claim C8. After a reconnection the Facade is to re-issue the four get-state requests
  and to re-subscribe to the topic set held before the disconnection. The code at the
  failing input: \<open>autoSubscribe\<close> is switched off and the Facade holds the topic
  \<open>devices\<close>, subscribed by hand; the connection is lost, comes back and stays up; the
  recovery starts, the four get-state requests go out, and no subscribe request follows.
\<close>

theorem recovery_skips_resubscription:
  "subscribedTopics manual_facade = [''devices'']
   \<and> snd (emitConnectionChange (status_updates manual_facade [status_down, status_connecting]) status_up)
   \<and> fst (snd (handleReconnection
        (fst (emitConnectionChange (status_updates manual_facade [status_down, status_connecting]) status_up))
        steady_env))
      = [(''get_device_state'', JObj []), (''get_nc_state'', JObj []), (''get_ac_state'', JObj []),
         (''get_in_call_state'', JObj [])]"
proof -
  have a: "wasConnected manual_facade" "\<not> connected status_down"
    "\<forall>st \<in> set [status_connecting]. \<not> connected st" "connected status_up"
    by (simp_all add: manual_facade_def status_down_def status_connecting_def status_up_def
        failure_status_def)
  have b: "poll (polls steady_env) 10 0" "connected_later steady_env"
    by (simp_all add: steady_env_def eval_nat_numeral)
  have c: "autoSubscribe (sdk_options (manual_facade\<lparr>isReconnecting := False, wasConnected := True\<rparr>)) = Some False"
    by (simp add: manual_facade_def)
  from lost_then_back [OF a] recovery_sent [OF b, of "manual_facade\<lparr>isReconnecting := False, wasConnected := True\<rparr>"] c
  show ?thesis
    by (simp add: domain_events_def) (simp add: manual_facade_def)
qed

end
